theory Spec2Isabelle
  imports Main "HOL-Library.Char_ord" "HOL-Library.List_Lexorder" "HOL-Library.AList"
    "HOL-Library.Monad_Syntax"
begin

section \<open>Strings and the regular expressions of the source\<close>

text \<open>
  A Go string is modelled as a \<^typ>\<open>string\<close>, a list of 8-bit characters. Go compares
  strings bytewise, which is the lexicographic order of \<^theory_text>\<open>List_Lexorder\<close> over the
  order of \<^theory_text>\<open>Char_ord\<close>.

  Every regular expression of the source is anchored at both ends (\<^verbatim>\<open>^...$\<close>) and is a
  flat sequence of literals and of quantified character classes, some of them inside a
  capture group. Three classes occur: \<^verbatim>\<open>.\<close> (any character but a newline), \<^verbatim>\<open>[^-]\<close>
  (any character but a hyphen; a negated class of Go's \<^verbatim>\<open>regexp\<close> matches a newline)
  and \<^verbatim>\<open>[0-9]\<close>.

  Go's \<^verbatim>\<open>regexp\<close> reads a string as UTF-8, one code point at a time, and a byte that
  is not UTF-8 as one character. The three classes tell characters apart only by the
  ASCII characters newline, hyphen and digit, and no byte of a longer UTF-8 sequence is
  an ASCII character, so matching byte by byte finds the same matches.
\<close>

datatype cls = AnyChar | NotHyphen | Digit

fun inC :: "cls \<Rightarrow> char \<Rightarrow> bool" where
  "inC AnyChar c = (c \<noteq> CHR 0x0A)"
| "inC NotHyphen c = (c \<noteq> CHR ''-'')"
| "inC Digit c = (c \<in> set ''0123456789'')"

text \<open>
  \<open>Lit l\<close> is the literal text \<open>l\<close>, \<open>Star c\<close> is \<^verbatim>\<open>c*\<close>, \<open>Plus c\<close> is \<^verbatim>\<open>c+\<close> and
  \<open>Count n c\<close> is \<^verbatim>\<open>c{n}\<close>. A part of a regular expression is an atom outside every
  group (\<open>A\<close>) or one capture group (\<open>G\<close>) of atoms.
\<close>

datatype atom = Lit string | Star cls | Plus cls | Count nat cls

datatype part = A atom | G "atom list"

type_synonym regex = "part list"

text \<open>
  Go's \<^verbatim>\<open>regexp\<close> returns the match that a backtracking search finds first, a greedy
  quantifier trying its longest run first. \<open>backtrack k s lo n\<close> tries the run lengths
  \<open>n\<close>, \<open>n - 1\<close>, ... down to \<open>lo\<close> of a quantified class at the head of \<open>s\<close>, with \<open>k\<close>
  the matcher of the rest of the expression; a successful match is the list of the
  texts its atoms consumed, in order.
\<close>

fun backtrack :: "(string \<Rightarrow> string list option) \<Rightarrow> string \<Rightarrow> nat \<Rightarrow> nat \<Rightarrow> string list option" where
  "backtrack k s lo 0 = (if lo = 0 then map_option ((#) []) (k s) else None)"
| "backtrack k s lo (Suc n) =
     (if Suc n < lo then None
      else case k (drop (Suc n) s) of
             Some segs \<Rightarrow> Some (take (Suc n) s # segs)
           | None \<Rightarrow> backtrack k s lo n)"

fun rmatch :: "atom list \<Rightarrow> string \<Rightarrow> string list option" where
  "rmatch [] s = (if s = [] then Some [] else None)"
| "rmatch (Lit l # as) s =
     (if take (length l) s = l then map_option ((#) l) (rmatch as (drop (length l) s))
      else None)"
| "rmatch (Count n c # as) s =
     (if n \<le> length s \<and> list_all (inC c) (take n s)
      then map_option ((#) (take n s)) (rmatch as (drop n s))
      else None)"
| "rmatch (Plus c # as) s = backtrack (rmatch as) s 1 (length (takeWhile (inC c) s))"
| "rmatch (Star c # as) s = backtrack (rmatch as) s 0 (length (takeWhile (inC c) s))"

fun atoms :: "regex \<Rightarrow> atom list" where
  "atoms [] = []"
| "atoms (A a # ps) = a # atoms ps"
| "atoms (G as # ps) = as @ atoms ps"

fun submatches :: "regex \<Rightarrow> string list \<Rightarrow> string list" where
  "submatches [] segs = []"
| "submatches (A a # ps) segs = submatches ps (drop 1 segs)"
| "submatches (G as # ps) segs =
     concat (take (length as) segs) # submatches ps (drop (length as) segs)"

text \<open>
  \<^verbatim>\<open>re.FindStringSubmatch(s)\<close>: nil (length 0) when \<open>s\<close> does not match, else the whole
  match (all of \<open>s\<close>, the expression being anchored) followed by the text of each group.
\<close>

definition FindStringSubmatch :: "regex \<Rightarrow> string \<Rightarrow> string list" where
  "FindStringSubmatch re s =
     (case rmatch (atoms re) s of
        None \<Rightarrow> []
      | Some segs \<Rightarrow> s # submatches re segs)"

text \<open>
  What the text consumed by an atom looks like; \<open>rmatch\<close> returns only such texts
  (lemma \<open>rmatch_sound\<close> below).
\<close>

fun conforms :: "atom \<Rightarrow> string \<Rightarrow> bool" where
  "conforms (Lit l) seg = (seg = l)"
| "conforms (Star c) seg = list_all (inC c) seg"
| "conforms (Plus c) seg = (seg \<noteq> [] \<and> list_all (inC c) seg)"
| "conforms (Count n c) seg = (length seg = n \<and> list_all (inC c) seg)"

section \<open>pkg/nodeclasses: parsing AMI names\<close>

datatype error =
    InvalidAMIName string
  | NoMatchingVersions

record AMIPattern =
  HasNodegroup :: bool
  Nodegroup :: string
  K8sVersion :: string
  Version :: string

text \<open>\<^verbatim>\<open>^domino-eks-([^-]+)-(1\.[0-9]+)-v([0-9]{8})$\<close>\<close>

definition reWithNodegroupVersion :: regex where
  "reWithNodegroupVersion =
     [A (Lit ''domino-eks-''), G [Plus NotHyphen], A (Lit ''-''),
      G [Lit ''1.'', Plus Digit], A (Lit ''-v''), G [Count 8 Digit]]"

text \<open>\<^verbatim>\<open>^domino-eks-(1\.[0-9]+)-v([0-9]{8})$\<close>\<close>

definition reWithoutNodegroupVersion :: regex where
  "reWithoutNodegroupVersion =
     [A (Lit ''domino-eks-''), G [Lit ''1.'', Plus Digit], A (Lit ''-v''),
      G [Count 8 Digit]]"

text \<open>\<^verbatim>\<open>^domino-eks-([^-]+)-(1\.[0-9]+)-.*$\<close>\<close>

definition reWithNodegroupWildcard :: regex where
  "reWithNodegroupWildcard =
     [A (Lit ''domino-eks-''), G [Plus NotHyphen], A (Lit ''-''),
      G [Lit ''1.'', Plus Digit], A (Lit ''-''), A (Star AnyChar)]"

text \<open>\<^verbatim>\<open>^domino-eks-(1\.[0-9]+)-.*$\<close>\<close>

definition reWithoutNodegroupWildcard :: regex where
  "reWithoutNodegroupWildcard =
     [A (Lit ''domino-eks-''), G [Lit ''1.'', Plus Digit], A (Lit ''-''),
      A (Star AnyChar)]"

definition ParseAMIName :: "string \<Rightarrow> error + AMIPattern" where
  "ParseAMIName amiName =
     (let matches = FindStringSubmatch reWithNodegroupVersion amiName in
      if length matches = 4 then
        Inr \<lparr>HasNodegroup = True, Nodegroup = matches ! 1,
             K8sVersion = matches ! 2, Version = matches ! 3\<rparr>
      else
      let matches = FindStringSubmatch reWithoutNodegroupVersion amiName in
      if length matches = 3 then
        Inr \<lparr>HasNodegroup = False, Nodegroup = '''',
             K8sVersion = matches ! 1, Version = matches ! 2\<rparr>
      else
      let matches = FindStringSubmatch reWithNodegroupWildcard amiName in
      if length matches = 3 then
        Inr \<lparr>HasNodegroup = True, Nodegroup = matches ! 1,
             K8sVersion = matches ! 2, Version = ''''\<rparr>
      else
      let matches = FindStringSubmatch reWithoutNodegroupWildcard amiName in
      if length matches = 2 then
        Inr \<lparr>HasNodegroup = False, Nodegroup = '''',
             K8sVersion = matches ! 1, Version = ''''\<rparr>
      else Inl (InvalidAMIName amiName))"

section \<open>pkg/nodeclasses: the node-class registry\<close>

record AMISelectorTerm =
  term_Name :: string
  Owner :: string

record EC2NodeClass =
  APIVersion :: string
  Kind :: string
  Metadata_Name :: string
  Spec_AMISelectorTerms :: "AMISelectorTerm list"

record NodeClassInfo =
  info_HasNodegroup :: bool
  info_Nodegroup :: string

text \<open>
  \<^verbatim>\<open>strings.Split(s, sep)\<close> for a separator of one character (the source splits at
  \<^verbatim>\<open>"-"\<close>): the pieces between the separators, one piece (the empty string) for the
  empty string. \<^verbatim>\<open>strings.Join(parts, sep)\<close> puts the separator between the pieces.
\<close>

fun Split :: "string \<Rightarrow> char \<Rightarrow> string list" where
  "Split [] sep = [[]]"
| "Split (c # cs) sep =
     (if c = sep then [] # Split cs sep
      else case Split cs sep of
             w # ws \<Rightarrow> (c # w) # ws
           | [] \<Rightarrow> [[c]])"

fun Join :: "string list \<Rightarrow> string \<Rightarrow> string" where
  "Join [] sep = []"
| "Join [w] sep = w"
| "Join (w # ws) sep = w @ sep @ Join ws sep"

text \<open>
  The body of the loop of \<^verbatim>\<open>BuildNodeClassMap\<close> once the first selector term has
  parsed: the group is the pattern's, or, for a pattern without a group, what follows
  \<^verbatim>\<open>domino-eks-\<close> in the node class's own name; \<^verbatim>\<open>HasNodegroup\<close> is the pattern's.
\<close>

definition inferInfo :: "string \<Rightarrow> AMIPattern \<Rightarrow> NodeClassInfo" where
  "inferInfo name pattern =
     (let ng = Nodegroup pattern;
          ng = (if \<not> HasNodegroup pattern then
                  (let nameParts = Split name (CHR ''-'') in
                   if length nameParts \<ge> 3 \<and> nameParts ! 0 = ''domino''
                      \<and> nameParts ! 1 = ''eks''
                   then Join (drop 2 nameParts) ''-'' else ng)
                else ng)
      in \<lparr>info_HasNodegroup = HasNodegroup pattern, info_Nodegroup = ng\<rparr>)"

definition registerNodeClass ::
  "(string \<rightharpoonup> NodeClassInfo) \<Rightarrow> EC2NodeClass \<Rightarrow> (string \<rightharpoonup> NodeClassInfo)" where
  "registerNodeClass nodeclassMap nc =
     (case Spec_AMISelectorTerms nc of
        [] \<Rightarrow> nodeclassMap
      | t # _ \<Rightarrow>
          (case ParseAMIName (term_Name t) of
             Inl err \<Rightarrow> nodeclassMap
           | Inr pattern \<Rightarrow>
               nodeclassMap(Metadata_Name nc \<mapsto> inferInfo (Metadata_Name nc) pattern)))"

definition BuildNodeClassMap :: "EC2NodeClass list \<Rightarrow> (string \<rightharpoonup> NodeClassInfo)" where
  "BuildNodeClassMap items = foldl registerNodeClass Map.empty items"

section \<open>main: the dry-run plan\<close>

record change =
  nodeclassName :: string
  oldAMI :: string
  newAMI :: string

text \<open>
  The new AMI name of a node class (the two \<^verbatim>\<open>fmt.Sprintf\<close> of the plan loop): with
  the registry's group when the registry says the node class has one, without a group
  otherwise; the Kubernetes version is the parsed pattern's.
\<close>

definition newAMIName :: "NodeClassInfo \<Rightarrow> AMIPattern \<Rightarrow> string \<Rightarrow> string" where
  "newAMIName info pattern versionDate =
     (if info_HasNodegroup info
      then ''domino-eks-'' @ info_Nodegroup info @ ''-'' @ K8sVersion pattern @ ''-v''
             @ versionDate
      else ''domino-eks-'' @ K8sVersion pattern @ ''-v'' @ versionDate)"

datatype planned =
    Change change
  | SkippedUnparsed string
  | SkippedNoInfo string
  | NoSelectorTerm

definition planNodeClass ::
  "(string \<rightharpoonup> NodeClassInfo) \<Rightarrow> string \<Rightarrow> EC2NodeClass \<Rightarrow> planned" where
  "planNodeClass nodeclassMap versionDate nc =
     (case Spec_AMISelectorTerms nc of
        [] \<Rightarrow> NoSelectorTerm
      | t # _ \<Rightarrow>
          (case ParseAMIName (term_Name t) of
             Inl err \<Rightarrow> SkippedUnparsed (Metadata_Name nc)
           | Inr pattern \<Rightarrow>
               (case nodeclassMap (Metadata_Name nc) of
                  None \<Rightarrow> SkippedNoInfo (Metadata_Name nc)
                | Some info \<Rightarrow>
                    Change \<lparr>nodeclassName = Metadata_Name nc, oldAMI = term_Name t,
                            newAMI = newAMIName info pattern versionDate\<rparr>)))"

definition planStep ::
  "(string \<rightharpoonup> NodeClassInfo) \<Rightarrow> string \<Rightarrow> change list \<Rightarrow> EC2NodeClass \<Rightarrow> change list" where
  "planStep nodeclassMap versionDate changes nc =
     (case planNodeClass nodeclassMap versionDate nc of
        Change ch \<Rightarrow> changes @ [ch]
      | _ \<Rightarrow> changes)"

definition TrimPrefix :: "string \<Rightarrow> string \<Rightarrow> string" where
  "TrimPrefix s prefix =
     (if take (length prefix) s = prefix then drop (length prefix) s else s)"

text \<open>
  The plan of \<^verbatim>\<open>main\<close> for the node classes of the cluster and the version chosen in
  the menu: the registry \<^verbatim>\<open>main\<close> builds of the node classes, and its loop that collects
  the changes. A menu entry is \<^verbatim>\<open>"v" + Version\<close> of a version item; \<^verbatim>\<open>main\<close> strips the
  \<^verbatim>\<open>v\<close> again. The lines \<^verbatim>\<open>main\<close> prints for the node classes it skips are the
  \<open>Skipped\<close> results of \<open>planNodeClass\<close>.
\<close>

definition main_changes :: "EC2NodeClass list \<Rightarrow> string \<Rightarrow> change list" where
  "main_changes items selectedVersion =
     (let nodeclassMap = BuildNodeClassMap items;
          versionDate = TrimPrefix selectedVersion ''v''
      in foldl (planStep nodeclassMap versionDate) [] items)"

section \<open>pkg/nodeclasses: UpdateNodeClass\<close>

text \<open>
  The document \<^verbatim>\<open>kubectl get ec2nodeclass <name> -o json\<close> prints, as
  \<^verbatim>\<open>encoding/json\<close> decodes it into \<^verbatim>\<open>interface{}\<close> values. An object is a Go map;
  the association list stands for it, read with \<^const>\<open>map_of\<close> and written with
  \<^const>\<open>AList.update\<close>.
\<close>

datatype json =
    JNull
  | JBool bool
  | JNumber int
  | JString string
  | JArray "json list"
  | JObject "(string \<times> json) list"

datatype kubectl_get = GetFailed | NotJSON | Output json

text \<open>
  What a call does: it panics (a failed type assertion or an index out of range), it
  returns an error, or it returns nil after \<^verbatim>\<open>kubectl apply\<close> took the document.
\<close>

datatype outcome = Panic | Failed string | Applied json

text \<open>
  \<^verbatim>\<open>json.Unmarshal(output, &nodeclass)\<close> for \<^verbatim>\<open>nodeclass map[string]interface{}\<close>: an
  object fills the map, \<^verbatim>\<open>null\<close> leaves it nil (no error; reading a nil map finds
  nothing), any other value is an error.
\<close>

fun unmarshalMap :: "json \<Rightarrow> (string \<times> json) list option" where
  "unmarshalMap (JObject kvs) = Some kvs"
| "unmarshalMap JNull = Some []"
| "unmarshalMap _ = None"

text \<open>
  \<^verbatim>\<open>UpdateNodeClass(name, newAMI)\<close>, given what the two \<^verbatim>\<open>kubectl\<close> commands answer
  (\<open>ami\<close> is the parameter \<^verbatim>\<open>newAMI\<close>).
\<close>

definition UpdateNodeClass ::
  "(string \<Rightarrow> kubectl_get) \<Rightarrow> (json \<Rightarrow> bool) \<Rightarrow> string \<Rightarrow> string \<Rightarrow> outcome" where
  "UpdateNodeClass kubectlGet kubectlApply name ami =
     (case kubectlGet name of
        GetFailed \<Rightarrow> Failed ''failed to get nodeclass''
      | NotJSON \<Rightarrow> Failed ''failed to parse nodeclass JSON''
      | Output doc \<Rightarrow>
          (case unmarshalMap doc of
             None \<Rightarrow> Failed ''failed to parse nodeclass JSON''
           | Some nodeclass \<Rightarrow>
               (case map_of nodeclass ''spec'' of
                  Some (JObject spec) \<Rightarrow>
                    (case map_of spec ''amiSelectorTerms'' of
                       Some (JArray amiSelectorTerms) \<Rightarrow>
                         (case amiSelectorTerms of
                            JObject term0 # terms \<Rightarrow>
                              (let term0 = AList.update ''name'' (JString ami) term0;
                                   spec = AList.update ''amiSelectorTerms''
                                            (JArray (JObject term0 # terms)) spec;
                                   nodeclass = AList.update ''spec'' (JObject spec) nodeclass
                               in if kubectlApply (JObject nodeclass)
                                  then Applied (JObject nodeclass)
                                  else Failed ''failed to apply changes'')
                          | _ \<Rightarrow> Panic)
                     | _ \<Rightarrow> Panic)
                | _ \<Rightarrow> Panic)))"

section \<open>pkg/amis: the versions on offer\<close>

record AMIInfo =
  ami_Name :: string
  ImageID :: string
  CreationDate :: string

record VersionItem =
  item_Version :: string
  item_Date :: string

text \<open>
  \<^verbatim>\<open>^domino-eks-.*-\<close> \<^verbatim>\<open>+ regexp.QuoteMeta(k8sVersion) +\<close> \<^verbatim>\<open>-v([0-9]{8})$\<close> and
  \<^verbatim>\<open>^domino-eks-\<close> \<^verbatim>\<open>+ regexp.QuoteMeta(k8sVersion) +\<close> \<^verbatim>\<open>-v([0-9]{8})$\<close>; the quoted
  version matches its own text and nothing else. The version is taken to be text in
  UTF-8, which \<^verbatim>\<open>regexp.MustCompile\<close> compiles; \<^verbatim>\<open>main\<close> passes the \<^verbatim>\<open>K8sVersion\<close> of a
  parsed pattern, \<^verbatim>\<open>1.\<close> and digits.
\<close>

definition patternWithNodegroup :: "string \<Rightarrow> regex" where
  "patternWithNodegroup k8sVersion =
     [A (Lit ''domino-eks-''), A (Star AnyChar), A (Lit ''-''), A (Lit k8sVersion),
      A (Lit ''-v''), G [Count 8 Digit]]"

definition patternWithoutNodegroup :: "string \<Rightarrow> regex" where
  "patternWithoutNodegroup k8sVersion =
     [A (Lit ''domino-eks-''), A (Lit k8sVersion), A (Lit ''-v''), G [Count 8 Digit]]"

text \<open>
  The version an AMI name stands for, if any: the first part of the loop body of
  \<^verbatim>\<open>ExtractVersions\<close>.
\<close>

definition matchedVersion :: "string \<Rightarrow> string \<Rightarrow> string option" where
  "matchedVersion k8sVersion name =
     (let matches = FindStringSubmatch (patternWithNodegroup k8sVersion) name;
          matches = (if length matches \<noteq> 2
                     then FindStringSubmatch (patternWithoutNodegroup k8sVersion) name
                     else matches)
      in if length matches = 2 then Some (matches ! 1) else None)"

text \<open>
  \<^verbatim>\<open>versionSet\<close>, a Go map from version to date, is an association list with one entry
  for each key. The second part of the loop body keeps the greater date of a version.
\<close>

definition recordVersion ::
  "string \<Rightarrow> (string \<times> string) list \<Rightarrow> AMIInfo \<Rightarrow> (string \<times> string) list" where
  "recordVersion k8sVersion versionSet ami =
     (case matchedVersion k8sVersion (ami_Name ami) of
        None \<Rightarrow> versionSet
      | Some version \<Rightarrow>
          (case map_of versionSet version of
             None \<Rightarrow> AList.update version (CreationDate ami) versionSet
           | Some existingDate \<Rightarrow>
               if CreationDate ami > existingDate
               then AList.update version (CreationDate ami) versionSet
               else versionSet))"

subsection \<open>ParseDate\<close>

text \<open>
  \<^verbatim>\<open>ParseDate\<close> calls \<^verbatim>\<open>time.Parse("2006-01-02T15:04:05.000Z", dateStr)\<close> and formats
  the time with \<^verbatim>\<open>"2006-01-02 15:04"\<close>. The definitions below follow the steps of Go's
  \<^verbatim>\<open>time.Parse\<close> for this one layout: a year of four digits, month, day, minute and
  second of two digits, an hour of one or two digits, a fraction that is a period or a
  comma and three more characters read by \<^verbatim>\<open>atoi\<close>, the literal texts between them, no
  text after the \<^verbatim>\<open>Z\<close>, and the ranges of the fields.
\<close>

record Time =
  Year :: nat
  Month :: nat
  Day :: nat
  Hour :: nat
  Minute :: nat
  Second :: nat
  Nanosecond :: nat

definition isDigit :: "string \<Rightarrow> nat \<Rightarrow> bool" where
  "isDigit s i = (i < length s \<and> inC Digit (s ! i))"

definition digitVal :: "char \<Rightarrow> nat" where
  "digitVal c = of_char c - 48"

definition leadingInt :: "string \<Rightarrow> nat \<times> string" where
  "leadingInt s =
     (foldl (\<lambda>x c. x * 10 + digitVal c) 0 (takeWhile (inC Digit) s),
      dropWhile (inC Digit) s)"

definition atoi :: "string \<Rightarrow> int option" where
  "atoi s =
     (let neg = (s \<noteq> [] \<and> hd s = CHR ''-'');
          s = (if s \<noteq> [] \<and> (hd s = CHR ''-'' \<or> hd s = CHR ''+'') then tl s else s);
          (q, rem) = leadingInt s
      in if rem \<noteq> [] then None
         else if neg then Some (- int q) else Some (int q))"

definition getnum :: "string \<Rightarrow> bool \<Rightarrow> (nat \<times> string) option" where
  "getnum s fixed =
     (if \<not> isDigit s 0 then None
      else if \<not> isDigit s 1 then
        (if fixed then None else Some (digitVal (s ! 0), drop 1 s))
      else Some (digitVal (s ! 0) * 10 + digitVal (s ! 1), drop 2 s))"

definition skip :: "string \<Rightarrow> string \<Rightarrow> string option" where
  "skip v prefix =
     (if take (length prefix) v = prefix then Some (drop (length prefix) v) else None)"

definition check :: "bool \<Rightarrow> unit option" where
  "check b = (if b then Some () else None)"

definition isLeap :: "nat \<Rightarrow> bool" where
  "isLeap year = (year mod 4 = 0 \<and> (year mod 100 \<noteq> 0 \<or> year mod 400 = 0))"

definition daysIn :: "nat \<Rightarrow> nat \<Rightarrow> nat" where
  "daysIn m year =
     (if m = 2 then (if isLeap year then 29 else 28)
      else 30 + ((m + m div 8) mod 2))"

definition time_Parse :: "string \<Rightarrow> Time option" where
  "time_Parse v =
     do {
       check (4 \<le> length v \<and> isDigit v 0);
       y \<leftarrow> atoi (take 4 v);
       v \<leftarrow> skip (drop 4 v) ''-'';
       (month, v) \<leftarrow> getnum v True;
       check (1 \<le> month \<and> month \<le> 12);
       v \<leftarrow> skip v ''-'';
       (day, v) \<leftarrow> getnum v True;
       v \<leftarrow> skip v ''T'';
       (hour, v) \<leftarrow> getnum v False;
       check (hour < 24);
       v \<leftarrow> skip v '':'';
       (minute, v) \<leftarrow> getnum v True;
       check (minute < 60);
       v \<leftarrow> skip v '':'';
       (sec, v) \<leftarrow> getnum v True;
       check (sec < 60);
       check (4 \<le> length v \<and> (v ! 0 = CHR ''.'' \<or> v ! 0 = CHR '',''));
       ns \<leftarrow> atoi (take 3 (drop 1 v));
       check (0 \<le> ns);
       v \<leftarrow> skip (drop 4 v) ''Z'';
       check (v = []);
       check (1 \<le> day \<and> day \<le> daysIn month (nat y));
       Some \<lparr>Year = nat y, Month = month, Day = day, Hour = hour, Minute = minute,
             Second = sec, Nanosecond = nat ns * 1000000\<rparr>
     }"

text \<open>\<open>appendInt x width\<close>: the decimal digits of \<open>x\<close>, for \<open>x\<close> below \<open>10 ^ width\<close>.\<close>

definition appendInt :: "nat \<Rightarrow> nat \<Rightarrow> string" where
  "appendInt x width =
     map (\<lambda>i. ''0123456789'' ! (x div 10 ^ i mod 10)) (rev [0..<width])"

definition time_Format :: "Time \<Rightarrow> string" where
  "time_Format t =
     appendInt (Year t) 4 @ ''-'' @ appendInt (Month t) 2 @ ''-'' @ appendInt (Day t) 2
       @ '' '' @ appendInt (Hour t) 2 @ '':'' @ appendInt (Minute t) 2"

definition ParseDate :: "string \<Rightarrow> string" where
  "ParseDate dateStr =
     (case time_Parse dateStr of
        None \<Rightarrow> dateStr
      | Some t \<Rightarrow> time_Format t)"

subsection \<open>ExtractVersions\<close>

text \<open>
  \<^verbatim>\<open>sort.Slice(xs, less)\<close>, as an insertion sort. The items sorted below have distinct
  keys, so every sorting algorithm gives the same list.
\<close>

fun insertBy :: "('a \<Rightarrow> 'a \<Rightarrow> bool) \<Rightarrow> 'a \<Rightarrow> 'a list \<Rightarrow> 'a list" where
  "insertBy lessFn x [] = [x]"
| "insertBy lessFn x (y # ys) =
     (if lessFn y x then y # insertBy lessFn x ys else x # y # ys)"

definition sortSlice :: "('a \<Rightarrow> 'a \<Rightarrow> bool) \<Rightarrow> 'a list \<Rightarrow> 'a list" where
  "sortSlice lessFn xs = foldr (insertBy lessFn) xs []"

definition ExtractVersions :: "AMIInfo list \<Rightarrow> string \<Rightarrow> error + VersionItem list" where
  "ExtractVersions amis k8sVersion =
     (let versionSet = foldl (recordVersion k8sVersion) [] amis in
      if length versionSet = 0 then Inl NoMatchingVersions
      else
        let versionItems =
              map (\<lambda>(version, dateStr).
                     \<lparr>item_Version = version, item_Date = ParseDate dateStr\<rparr>) versionSet
        in Inr (sortSlice (\<lambda>a b. item_Version a > item_Version b) versionItems))"

section \<open>main: the callback of waitForNodeClaims\<close>

record NodeClaimStatus =
  status_Name :: string
  status_NodeClass :: string
  Age :: int
  Drifted :: bool
  Reason :: string

text \<open>
  The function \<^verbatim>\<open>waitForNodeClaims\<close> hands to
  \<^verbatim>\<open>nodeclasses.WaitForNodeClaimsUndrifted\<close>: it prints the status of every node claim
  and a closing line, and returns whether to go on waiting. The model keeps the closing
  line (\<open>NoNodeClaims\<close> for \<^verbatim>\<open>No nodeclaims found\<close>, \<open>Waiting d n\<close> for
  \<^verbatim>\<open>Waiting... (d/n nodeclaims still drifted)\<close>, \<open>AllUndrifted\<close> for
  \<^verbatim>\<open>All nodeclaims are undrifted!\<close>) and the value returned.
\<close>

datatype closing_line = NoNodeClaims | Waiting nat nat | AllUndrifted

definition waitForNodeClaims_callback :: "NodeClaimStatus list \<Rightarrow> closing_line \<times> bool" where
  "waitForNodeClaims_callback statuses =
     (if length statuses = 0 then (NoNodeClaims, True)
      else
        let driftedCount =
              foldl (\<lambda>n status. if Drifted status then n + 1 else n) 0 statuses
        in if driftedCount > 0 then (Waiting driftedCount (length statuses), True)
           else (AllUndrifted, True))"

section \<open>The matcher\<close>

lemma backtrack_below: "n < lo \<Longrightarrow> backtrack k s lo n = None"
  by (cases n) auto

lemma backtrack_none: "(\<And>j. j \<le> n \<Longrightarrow> k (drop j s) = None) \<Longrightarrow> backtrack k s lo n = None"
  by (induction n) auto

lemma backtrack_only_top:
  assumes "\<And>j. j < n \<Longrightarrow> k (drop j s) = None"
  shows "backtrack k s lo n = (if n < lo then None else map_option ((#) (take n s)) (k (drop n s)))"
proof (cases n)
  case 0
  then show ?thesis by simp
next
  case (Suc m)
  have "backtrack k s lo m = None"
    using assms Suc by (intro backtrack_none) simp
  then show ?thesis using Suc by (simp split: option.splits)
qed

lemma backtrack_Some:
  "backtrack k s lo n = Some r \<Longrightarrow>
   \<exists>j segs. lo \<le> j \<and> j \<le> n \<and> k (drop j s) = Some segs \<and> r = take j s # segs"
proof (induction n)
  case 0
  have lo: "lo = 0" using "0.prems" by (cases "lo = 0") simp_all
  with "0.prems" obtain segs where "k s = Some segs" "r = [] # segs"
    by (cases "k s") simp_all
  with lo have "lo \<le> 0 \<and> (0::nat) \<le> 0 \<and> k (drop 0 s) = Some segs \<and> r = take 0 s # segs"
    by simp
  then show ?case by blast
next
  case (Suc n)
  have nlt: "\<not> Suc n < lo" using Suc.prems by (cases "Suc n < lo") simp_all
  show ?case
  proof (cases "k (drop (Suc n) s)")
    case None
    with Suc.prems nlt have "backtrack k s lo n = Some r" by simp
    from Suc.IH[OF this] obtain j segs where
      "lo \<le> j" "j \<le> n" "k (drop j s) = Some segs" "r = take j s # segs" by blast
    then have "lo \<le> j \<and> j \<le> Suc n \<and> k (drop j s) = Some segs \<and> r = take j s # segs"
      by simp
    then show ?thesis by blast
  next
    case (Some segs)
    with Suc.prems nlt have "r = take (Suc n) s # segs" by simp
    with Some nlt have "lo \<le> Suc n \<and> Suc n \<le> Suc n \<and> k (drop (Suc n) s) = Some segs
        \<and> r = take (Suc n) s # segs"
      by simp
    then show ?thesis by blast
  qed
qed

lemma run_nth: "i < length (takeWhile P s) \<Longrightarrow> P (s ! i)"
proof -
  assume a: "i < length (takeWhile P s)"
  then have "takeWhile P s ! i \<in> set (takeWhile P s)" by (rule nth_mem)
  then have "P (takeWhile P s ! i)" by (rule set_takeWhileD[THEN conjunct2])
  with takeWhile_nth[OF a] show ?thesis by simp
qed

lemma take_run: "j \<le> length (takeWhile P s) \<Longrightarrow> list_all P (take j s)"
proof -
  assume j: "j \<le> length (takeWhile P s)"
  have "P (take j s ! n)" if "n < length (take j s)" for n
  proof -
    from that have nj: "n < j" by simp
    with j have "n < length (takeWhile P s)" by simp
    then have "P (s ! n)" by (rule run_nth)
    with nj show ?thesis by simp
  qed
  then show ?thesis unfolding list_all_length by blast
qed

lemma run_all: "(length (takeWhile P s) = length s) = list_all P s"
proof
  assume "length (takeWhile P s) = length s"
  then have "list_all P (take (length s) s)" by (intro take_run) simp
  then show "list_all P s" by simp
next
  assume "list_all P s"
  then have "takeWhile P s = s"
    unfolding list_all_iff by (rule takeWhile_eq_all_conv[THEN iffD2])
  then show "length (takeWhile P s) = length s" by (rule arg_cong)
qed

lemma rmatch_sound:
  "rmatch as s = Some segs \<Longrightarrow> concat segs = s \<and> list_all2 conforms as segs"
proof (induction as arbitrary: s segs)
  case Nil
  then show ?case by (cases "s = []") simp_all
next
  case (Cons a as)
  show ?case
  proof (cases a)
    case (Lit l)
    have tk: "take (length l) s = l"
      using Cons.prems Lit by (cases "take (length l) s = l") simp_all
    with Cons.prems Lit obtain rest where r:
      "rmatch as (drop (length l) s) = Some rest" "segs = l # rest"
      by (cases "rmatch as (drop (length l) s)") simp_all
    from Cons.IH[OF r(1)] have ih: "concat rest = drop (length l) s" "list_all2 conforms as rest"
      by simp_all
    have "l @ drop (length l) s = s" using tk append_take_drop_id[of "length l" s] by simp
    with ih r(2) Lit show ?thesis by simp
  next
    case (Count n c)
    have g: "n \<le> length s \<and> list_all (inC c) (take n s)"
      using Cons.prems Count by (cases "n \<le> length s \<and> list_all (inC c) (take n s)") simp_all
    with Cons.prems Count obtain rest where r:
      "rmatch as (drop n s) = Some rest" "segs = take n s # rest"
      by (cases "rmatch as (drop n s)") simp_all
    from Cons.IH[OF r(1)] g r(2) Count show ?thesis by simp
  next
    case (Plus c)
    with Cons.prems have "backtrack (rmatch as) s 1 (length (takeWhile (inC c) s)) = Some segs"
      by simp
    from backtrack_Some[OF this] obtain j rest where r: "1 \<le> j"
      "j \<le> length (takeWhile (inC c) s)" "rmatch as (drop j s) = Some rest"
      "segs = take j s # rest" by blast
    have "j \<le> length s" using r(2) length_takeWhile_le[of "inC c" s] by simp
    then have ne: "take j s \<noteq> []" using r(1) by (cases s) auto
    from Cons.IH[OF r(3)] r(4) take_run[OF r(2)] ne Plus show ?thesis by simp
  next
    case (Star c)
    with Cons.prems have "backtrack (rmatch as) s 0 (length (takeWhile (inC c) s)) = Some segs"
      by simp
    from backtrack_Some[OF this] obtain j rest where r:
      "j \<le> length (takeWhile (inC c) s)" "rmatch as (drop j s) = Some rest"
      "segs = take j s # rest" by blast
    from Cons.IH[OF r(2)] r(3) take_run[OF r(1)] Star show ?thesis by simp
  qed
qed

lemma rmatch_Plus_Lit:
  assumes "\<not> inC c x"
  shows "rmatch (Plus c # Lit (x # l) # as) s =
     (if takeWhile (inC c) s = [] then None
      else map_option ((#) (takeWhile (inC c) s))
             (rmatch (Lit (x # l) # as) (dropWhile (inC c) s)))"
proof -
  let ?n = "length (takeWhile (inC c) s)"
  have none: "rmatch (Lit (x # l) # as) (drop j s) = None" if "j < ?n" for j
  proof -
    have "inC c (s ! j)" using that by (rule run_nth)
    moreover have "j < length s" using that length_takeWhile_le[of "inC c" s] by simp
    then have "drop j s = s ! j # drop (Suc j) s" by (simp add: Cons_nth_drop_Suc)
    ultimately show ?thesis using assms by auto
  qed
  have t: "take ?n s = takeWhile (inC c) s" by (simp add: takeWhile_eq_take[symmetric])
  have d: "drop ?n s = dropWhile (inC c) s" by (simp add: dropWhile_eq_drop[symmetric])
  have "rmatch (Plus c # Lit (x # l) # as) s = backtrack (rmatch (Lit (x # l) # as)) s 1 ?n"
    by simp
  also have "\<dots> = (if ?n < 1 then None
      else map_option ((#) (take ?n s)) (rmatch (Lit (x # l) # as) (drop ?n s)))"
    by (rule backtrack_only_top) (rule none)
  finally show ?thesis unfolding t d by (simp del: rmatch.simps)
qed

lemma rmatch_Star_end:
  "rmatch [Star c] s = (if list_all (inC c) s then Some [s] else None)"
proof -
  let ?n = "length (takeWhile (inC c) s)"
  have none: "rmatch [] (drop j s) = None" if "j < ?n" for j
    using that length_takeWhile_le[of "inC c" s] by simp
  have "rmatch [Star c] s = backtrack (rmatch []) s 0 ?n" by simp
  also have "\<dots> = (if ?n < 0 then None
      else map_option ((#) (take ?n s)) (rmatch [] (drop ?n s)))"
    by (rule backtrack_only_top) (rule none)
  finally have e: "rmatch [Star c] s = map_option ((#) (take ?n s)) (rmatch [] (drop ?n s))"
    by simp
  show ?thesis
  proof (cases "list_all (inC c) s")
    case True
    then have "?n = length s" by (simp add: run_all)
    with e True show ?thesis by simp
  next
    case False
    then have "?n \<noteq> length s" by (simp add: run_all)
    with length_takeWhile_le[of "inC c" s] have "?n < length s" by simp
    with e False show ?thesis by simp
  qed
qed

section \<open>The four expressions of ParseAMIName\<close>

lemma notHyphen_iff: "list_all (inC NotHyphen) g = (CHR ''-'' \<notin> set g)"
  by (induction g) auto

lemma digit_notHyphen: "list_all (inC Digit) n \<Longrightarrow> list_all (inC NotHyphen) n"
  by (induction n) auto

lemma takeWhile_run: "list_all P g \<Longrightarrow> \<not> P x \<Longrightarrow> takeWhile P (g @ x # r) = g"
  by (induction g) auto

lemma dropWhile_run: "list_all P g \<Longrightarrow> \<not> P x \<Longrightarrow> dropWhile P (g @ x # r) = x # r"
  by (induction g) auto

lemma atoms_re1: "atoms reWithNodegroupVersion =
  [Lit ''domino-eks-'', Plus NotHyphen, Lit ''-'', Lit ''1.'', Plus Digit, Lit ''-v'', Count 8 Digit]"
  by (simp add: reWithNodegroupVersion_def)

lemma atoms_re2: "atoms reWithoutNodegroupVersion =
  [Lit ''domino-eks-'', Lit ''1.'', Plus Digit, Lit ''-v'', Count 8 Digit]"
  by (simp add: reWithoutNodegroupVersion_def)

lemma atoms_re3: "atoms reWithNodegroupWildcard =
  [Lit ''domino-eks-'', Plus NotHyphen, Lit ''-'', Lit ''1.'', Plus Digit, Lit ''-'', Star AnyChar]"
  by (simp add: reWithNodegroupWildcard_def)

lemma atoms_re4: "atoms reWithoutNodegroupWildcard =
  [Lit ''domino-eks-'', Lit ''1.'', Plus Digit, Lit ''-'', Star AnyChar]"
  by (simp add: reWithoutNodegroupWildcard_def)

lemma tail_resolved:
  assumes "n \<noteq> []" "list_all (inC Digit) n" "length d = 8" "list_all (inC Digit) d"
  shows "rmatch [Lit ''1.'', Plus Digit, Lit ''-v'', Count 8 Digit] (''1.'' @ n @ ''-v'' @ d)
         = Some [''1.'', n, ''-v'', d]"
  using assms
  by (simp add: rmatch_Plus_Lit takeWhile_run dropWhile_run del: rmatch.simps(4,5))

lemma tail_wildcard:
  assumes "n \<noteq> []" "list_all (inC Digit) n" "list_all (inC AnyChar) t"
  shows "rmatch [Lit ''1.'', Plus Digit, Lit ''-'', Star AnyChar] (''1.'' @ n @ ''-'' @ t)
         = Some [''1.'', n, ''-'', t]"
  using assms
  by (simp add: rmatch_Plus_Lit rmatch_Star_end takeWhile_run dropWhile_run del: rmatch.simps(4,5))


lemma F1:
  assumes "g \<noteq> []" "CHR ''-'' \<notin> set g" "n \<noteq> []" "list_all (inC Digit) n"
    "length d = 8" "list_all (inC Digit) d"
  shows "FindStringSubmatch reWithNodegroupVersion
           (''domino-eks-'' @ g @ ''-'' @ ''1.'' @ n @ ''-v'' @ d)
         = [''domino-eks-'' @ g @ ''-'' @ ''1.'' @ n @ ''-v'' @ d, g, ''1.'' @ n, d]"
proof -
  have g: "list_all (inC NotHyphen) g" using assms(2) by (simp add: notHyphen_iff)
  have "rmatch (atoms reWithNodegroupVersion)
          (''domino-eks-'' @ g @ ''-'' @ ''1.'' @ n @ ''-v'' @ d)
        = Some [''domino-eks-'', g, ''-'', ''1.'', n, ''-v'', d]"
    using assms g tail_resolved[OF assms(3-6)]
    by (simp add: atoms_re1 rmatch_Plus_Lit takeWhile_run dropWhile_run del: rmatch.simps(4,5))
  then show ?thesis
    by (simp add: FindStringSubmatch_def) (simp add: reWithNodegroupVersion_def)
qed

lemma F2a:
  assumes "n \<noteq> []" "list_all (inC Digit) n" "length d = 8" "list_all (inC Digit) d"
  shows "FindStringSubmatch reWithNodegroupVersion (''domino-eks-'' @ ''1.'' @ n @ ''-v'' @ d) = []"
proof -
  have "rmatch (atoms reWithNodegroupVersion) (''domino-eks-'' @ ''1.'' @ n @ ''-v'' @ d) = None"
    using assms digit_notHyphen[OF assms(2)]
    by (simp add: atoms_re1 rmatch_Plus_Lit takeWhile_run dropWhile_run del: rmatch.simps(4,5))
  then show ?thesis by (simp add: FindStringSubmatch_def)
qed

lemma F2b:
  assumes "n \<noteq> []" "list_all (inC Digit) n" "length d = 8" "list_all (inC Digit) d"
  shows "FindStringSubmatch reWithoutNodegroupVersion (''domino-eks-'' @ ''1.'' @ n @ ''-v'' @ d)
         = [''domino-eks-'' @ ''1.'' @ n @ ''-v'' @ d, ''1.'' @ n, d]"
proof -
  have "rmatch (atoms reWithoutNodegroupVersion) (''domino-eks-'' @ ''1.'' @ n @ ''-v'' @ d)
        = Some [''domino-eks-'', ''1.'', n, ''-v'', d]"
    using assms
    by (simp add: atoms_re2 rmatch_Plus_Lit takeWhile_run dropWhile_run del: rmatch.simps(4,5))
  then show ?thesis
    by (simp add: FindStringSubmatch_def) (simp add: reWithoutNodegroupVersion_def)
qed

lemma F3a:
  assumes "g \<noteq> []" "CHR ''-'' \<notin> set g" "n \<noteq> []" "list_all (inC Digit) n"
  shows "FindStringSubmatch reWithNodegroupVersion
           (''domino-eks-'' @ g @ ''-'' @ ''1.'' @ n @ ''-*'') = []"
proof -
  have g: "list_all (inC NotHyphen) g" using assms(2) by (simp add: notHyphen_iff)
  have "rmatch (atoms reWithNodegroupVersion)
          (''domino-eks-'' @ g @ ''-'' @ ''1.'' @ n @ ''-*'') = None"
    using assms g
    by (simp add: atoms_re1 rmatch_Plus_Lit takeWhile_run dropWhile_run del: rmatch.simps(4,5))
  then show ?thesis by (simp add: FindStringSubmatch_def)
qed

lemma F3c:
  assumes "g \<noteq> []" "CHR ''-'' \<notin> set g" "n \<noteq> []" "list_all (inC Digit) n"
  shows "FindStringSubmatch reWithNodegroupWildcard
           (''domino-eks-'' @ g @ ''-'' @ ''1.'' @ n @ ''-*'')
         = [''domino-eks-'' @ g @ ''-'' @ ''1.'' @ n @ ''-*'', g, ''1.'' @ n]"
proof -
  have g: "list_all (inC NotHyphen) g" using assms(2) by (simp add: notHyphen_iff)
  have "rmatch (atoms reWithNodegroupWildcard)
          (''domino-eks-'' @ g @ ''-'' @ ''1.'' @ n @ ''-*'')
        = Some [''domino-eks-'', g, ''-'', ''1.'', n, ''-'', ''*'']"
    using assms g
    by (simp add: atoms_re3 rmatch_Plus_Lit rmatch_Star_end takeWhile_run dropWhile_run
          del: rmatch.simps(4,5))
  then show ?thesis
    by (simp add: FindStringSubmatch_def) (simp add: reWithNodegroupWildcard_def)
qed

lemma F4a:
  assumes "n \<noteq> []" "list_all (inC Digit) n"
  shows "FindStringSubmatch reWithNodegroupVersion (''domino-eks-'' @ ''1.'' @ n @ ''-*'') = []"
proof -
  have "rmatch (atoms reWithNodegroupVersion) (''domino-eks-'' @ ''1.'' @ n @ ''-*'') = None"
    using assms digit_notHyphen[OF assms(2)]
    by (simp add: atoms_re1 rmatch_Plus_Lit takeWhile_run dropWhile_run del: rmatch.simps(4,5))
  then show ?thesis by (simp add: FindStringSubmatch_def)
qed

lemma F4b:
  assumes "n \<noteq> []" "list_all (inC Digit) n"
  shows "FindStringSubmatch reWithoutNodegroupVersion (''domino-eks-'' @ ''1.'' @ n @ ''-*'') = []"
proof -
  have "rmatch (atoms reWithoutNodegroupVersion) (''domino-eks-'' @ ''1.'' @ n @ ''-*'') = None"
    using assms
    by (simp add: atoms_re2 rmatch_Plus_Lit takeWhile_run dropWhile_run del: rmatch.simps(4,5))
  then show ?thesis by (simp add: FindStringSubmatch_def)
qed

lemma F4c:
  assumes "n \<noteq> []" "list_all (inC Digit) n"
  shows "FindStringSubmatch reWithNodegroupWildcard (''domino-eks-'' @ ''1.'' @ n @ ''-*'') = []"
proof -
  have "rmatch (atoms reWithNodegroupWildcard) (''domino-eks-'' @ ''1.'' @ n @ ''-*'') = None"
    using assms digit_notHyphen[OF assms(2)]
    by (simp add: atoms_re3 rmatch_Plus_Lit takeWhile_run dropWhile_run del: rmatch.simps(4,5))
  then show ?thesis by (simp add: FindStringSubmatch_def)
qed

lemma F4d:
  assumes "n \<noteq> []" "list_all (inC Digit) n"
  shows "FindStringSubmatch reWithoutNodegroupWildcard (''domino-eks-'' @ ''1.'' @ n @ ''-*'')
         = [''domino-eks-'' @ ''1.'' @ n @ ''-*'', ''1.'' @ n]"
proof -
  have "rmatch (atoms reWithoutNodegroupWildcard) (''domino-eks-'' @ ''1.'' @ n @ ''-*'')
        = Some [''domino-eks-'', ''1.'', n, ''-'', ''*'']"
    using assms
    by (simp add: atoms_re4 rmatch_Plus_Lit rmatch_Star_end takeWhile_run dropWhile_run
          del: rmatch.simps(4,5))
  then show ?thesis
    by (simp add: FindStringSubmatch_def) (simp add: reWithoutNodegroupWildcard_def)
qed


lemma shape1:
  assumes "rmatch (atoms reWithNodegroupVersion) s = Some segs"
  shows "\<exists>g n d. g \<noteq> [] \<and> CHR ''-'' \<notin> set g \<and> n \<noteq> [] \<and> list_all (inC Digit) n
           \<and> length d = 8 \<and> list_all (inC Digit) d
           \<and> s = ''domino-eks-'' @ g @ ''-'' @ ''1.'' @ n @ ''-v'' @ d
           \<and> segs = [''domino-eks-'', g, ''-'', ''1.'', n, ''-v'', d]"
proof -
  from rmatch_sound[OF assms] have c: "concat segs = s"
    and l: "list_all2 conforms (atoms reWithNodegroupVersion) segs" by simp_all
  from l obtain g n d where segs: "segs = [''domino-eks-'', g, ''-'', ''1.'', n, ''-v'', d]"
    and p: "g \<noteq> []" "list_all (inC NotHyphen) g" "n \<noteq> []" "list_all (inC Digit) n"
      "length d = 8" "list_all (inC Digit) d"
    by (auto simp: atoms_re1 list_all2_Cons1)
  from c segs have "s = ''domino-eks-'' @ g @ ''-'' @ ''1.'' @ n @ ''-v'' @ d" by simp
  with segs p show ?thesis by (simp add: notHyphen_iff)
qed

lemma shape2:
  assumes "rmatch (atoms reWithoutNodegroupVersion) s = Some segs"
  shows "\<exists>n d. n \<noteq> [] \<and> list_all (inC Digit) n \<and> length d = 8 \<and> list_all (inC Digit) d
           \<and> s = ''domino-eks-'' @ ''1.'' @ n @ ''-v'' @ d
           \<and> segs = [''domino-eks-'', ''1.'', n, ''-v'', d]"
proof -
  from rmatch_sound[OF assms] have c: "concat segs = s"
    and l: "list_all2 conforms (atoms reWithoutNodegroupVersion) segs" by simp_all
  from l obtain n d where segs: "segs = [''domino-eks-'', ''1.'', n, ''-v'', d]"
    and p: "n \<noteq> []" "list_all (inC Digit) n" "length d = 8" "list_all (inC Digit) d"
    by (auto simp: atoms_re2 list_all2_Cons1)
  from c segs have "s = ''domino-eks-'' @ ''1.'' @ n @ ''-v'' @ d" by simp
  with segs p show ?thesis by simp
qed

lemma shape3:
  assumes "rmatch (atoms reWithNodegroupWildcard) s = Some segs"
  shows "\<exists>g n t. g \<noteq> [] \<and> CHR ''-'' \<notin> set g \<and> n \<noteq> [] \<and> list_all (inC Digit) n
           \<and> segs = [''domino-eks-'', g, ''-'', ''1.'', n, ''-'', t]"
proof -
  from rmatch_sound[OF assms]
  have l: "list_all2 conforms (atoms reWithNodegroupWildcard) segs" by simp
  from l obtain g n t where segs: "segs = [''domino-eks-'', g, ''-'', ''1.'', n, ''-'', t]"
    and p: "g \<noteq> []" "list_all (inC NotHyphen) g" "n \<noteq> []" "list_all (inC Digit) n"
    by (auto simp: atoms_re3 list_all2_Cons1)
  with segs p show ?thesis by (simp add: notHyphen_iff)
qed

lemma shape4:
  assumes "rmatch (atoms reWithoutNodegroupWildcard) s = Some segs"
  shows "\<exists>n t. n \<noteq> [] \<and> list_all (inC Digit) n
           \<and> segs = [''domino-eks-'', ''1.'', n, ''-'', t]"
proof -
  from rmatch_sound[OF assms]
  have l: "list_all2 conforms (atoms reWithoutNodegroupWildcard) segs" by simp
  from l obtain n t where segs: "segs = [''domino-eks-'', ''1.'', n, ''-'', t]"
    and p: "n \<noteq> []" "list_all (inC Digit) n"
    by (auto simp: atoms_re4 list_all2_Cons1)
  with segs p show ?thesis by simp
qed

lemma FSS1:
  "FindStringSubmatch reWithNodegroupVersion s = [] \<or>
   (\<exists>g n d. g \<noteq> [] \<and> CHR ''-'' \<notin> set g \<and> n \<noteq> [] \<and> list_all (inC Digit) n
      \<and> length d = 8 \<and> list_all (inC Digit) d
      \<and> s = ''domino-eks-'' @ g @ ''-'' @ ''1.'' @ n @ ''-v'' @ d
      \<and> FindStringSubmatch reWithNodegroupVersion s = [s, g, ''1.'' @ n, d])"
proof (cases "rmatch (atoms reWithNodegroupVersion) s")
  case None
  then show ?thesis by (simp add: FindStringSubmatch_def)
next
  case (Some segs)
  from shape1[OF Some] obtain g n d where p: "g \<noteq> []" "CHR ''-'' \<notin> set g" "n \<noteq> []"
    "list_all (inC Digit) n" "length d = 8" "list_all (inC Digit) d"
    "s = ''domino-eks-'' @ g @ ''-'' @ ''1.'' @ n @ ''-v'' @ d"
    "segs = [''domino-eks-'', g, ''-'', ''1.'', n, ''-v'', d]" by blast
  have "FindStringSubmatch reWithNodegroupVersion s = [s, g, ''1.'' @ n, d]"
    using Some p(8) by (simp add: FindStringSubmatch_def) (simp add: reWithNodegroupVersion_def)
  with p show ?thesis by blast
qed

lemma FSS2:
  "FindStringSubmatch reWithoutNodegroupVersion s = [] \<or>
   (\<exists>n d. n \<noteq> [] \<and> list_all (inC Digit) n \<and> length d = 8 \<and> list_all (inC Digit) d
      \<and> s = ''domino-eks-'' @ ''1.'' @ n @ ''-v'' @ d
      \<and> FindStringSubmatch reWithoutNodegroupVersion s = [s, ''1.'' @ n, d])"
proof (cases "rmatch (atoms reWithoutNodegroupVersion) s")
  case None
  then show ?thesis by (simp add: FindStringSubmatch_def)
next
  case (Some segs)
  from shape2[OF Some] obtain n d where p: "n \<noteq> []"
    "list_all (inC Digit) n" "length d = 8" "list_all (inC Digit) d"
    "s = ''domino-eks-'' @ ''1.'' @ n @ ''-v'' @ d"
    "segs = [''domino-eks-'', ''1.'', n, ''-v'', d]" by blast
  have "FindStringSubmatch reWithoutNodegroupVersion s = [s, ''1.'' @ n, d]"
    using Some p(6) by (simp add: FindStringSubmatch_def) (simp add: reWithoutNodegroupVersion_def)
  with p show ?thesis by blast
qed

lemma FSS3:
  "FindStringSubmatch reWithNodegroupWildcard s = [] \<or>
   (\<exists>g n. g \<noteq> [] \<and> CHR ''-'' \<notin> set g \<and> n \<noteq> [] \<and> list_all (inC Digit) n
      \<and> FindStringSubmatch reWithNodegroupWildcard s = [s, g, ''1.'' @ n])"
proof (cases "rmatch (atoms reWithNodegroupWildcard) s")
  case None
  then show ?thesis by (simp add: FindStringSubmatch_def)
next
  case (Some segs)
  from shape3[OF Some] obtain g n t where p: "g \<noteq> []" "CHR ''-'' \<notin> set g" "n \<noteq> []"
    "list_all (inC Digit) n"
    "segs = [''domino-eks-'', g, ''-'', ''1.'', n, ''-'', t]" by blast
  have "FindStringSubmatch reWithNodegroupWildcard s = [s, g, ''1.'' @ n]"
    using Some p(5) by (simp add: FindStringSubmatch_def) (simp add: reWithNodegroupWildcard_def)
  with p show ?thesis by blast
qed

lemma FSS4:
  "FindStringSubmatch reWithoutNodegroupWildcard s = [] \<or>
   (\<exists>n. n \<noteq> [] \<and> list_all (inC Digit) n
      \<and> FindStringSubmatch reWithoutNodegroupWildcard s = [s, ''1.'' @ n])"
proof (cases "rmatch (atoms reWithoutNodegroupWildcard) s")
  case None
  then show ?thesis by (simp add: FindStringSubmatch_def)
next
  case (Some segs)
  from shape4[OF Some] obtain n t where p: "n \<noteq> []" "list_all (inC Digit) n"
    "segs = [''domino-eks-'', ''1.'', n, ''-'', t]" by blast
  have "FindStringSubmatch reWithoutNodegroupWildcard s = [s, ''1.'' @ n]"
    using Some p(3) by (simp add: FindStringSubmatch_def) (simp add: reWithoutNodegroupWildcard_def)
  with p show ?thesis by blast
qed

lemma F3b: "FindStringSubmatch reWithoutNodegroupVersion (r @ ''*'') = []"
proof -
  have False
    if "n \<noteq> []" "length d = 8" "list_all (inC Digit) d"
      "r @ ''*'' = ''domino-eks-'' @ ''1.'' @ n @ ''-v'' @ d" for n d :: string
  proof -
    from that(2) have dne: "d \<noteq> []" by auto
    have "last (r @ ''*'') = last d" unfolding that(4) using dne by simp
    then have st: "last d = CHR ''*''" by simp
    have mem: "last d \<in> set d" using dne by simp
    have "\<forall>x\<in>set d. inC Digit x" using that(3) unfolding list_all_iff .
    with mem have "inC Digit (last d)" by blast
    then show False unfolding st by simp
  qed
  with FSS2[of "r @ ''*''"] show ?thesis by blast
qed

section \<open>Parsing the names of the grammar\<close>

text \<open>A group is not empty: \<^verbatim>\<open>[^-]+\<close> wants one character or more.\<close>

lemma empty_group_rejected:
  "ParseAMIName ''domino-eks--1.33-v20251001'' = Inl (InvalidAMIName ''domino-eks--1.33-v20251001'')"
  by (simp add: ParseAMIName_def FindStringSubmatch_def reWithNodegroupVersion_def
      reWithoutNodegroupVersion_def reWithNodegroupWildcard_def reWithoutNodegroupWildcard_def)

text \<open>
  Claim C3. Let \<open>g\<close> be a group (not empty, no hyphen), \<open>''1.'' @ n\<close> a platform version
  (\<open>n\<close> one digit or more) and \<open>d\<close> a date of eight digits. Then \<open>ParseAMIName\<close> parses
  the resolved name \<^verbatim>\<open>domino-eks-<g>-<p>-v<d>\<close> to group \<open>g\<close>, version \<open>p\<close> and date
  \<open>d\<close>, the resolved name \<^verbatim>\<open>domino-eks-<p>-v<d>\<close> to no group, \<open>p\<close> and \<open>d\<close>, and the
  wildcard names \<^verbatim>\<open>domino-eks-<g>-<p>-*\<close> and \<^verbatim>\<open>domino-eks-<p>-*\<close> to the same with an
  empty date; the date of a resolved name is not empty, so it is not taken for a
  wildcard.
\<close>

theorem ParseAMIName_grammar:
  assumes "g \<noteq> []" "CHR ''-'' \<notin> set g" "n \<noteq> []" "list_all (inC Digit) n"
    "length d = 8" "list_all (inC Digit) d"
  shows "ParseAMIName (''domino-eks-'' @ g @ ''-'' @ ''1.'' @ n @ ''-v'' @ d)
           = Inr \<lparr>HasNodegroup = True, Nodegroup = g, K8sVersion = ''1.'' @ n, Version = d\<rparr>
       \<and> ParseAMIName (''domino-eks-'' @ ''1.'' @ n @ ''-v'' @ d)
           = Inr \<lparr>HasNodegroup = False, Nodegroup = '''', K8sVersion = ''1.'' @ n, Version = d\<rparr>
       \<and> ParseAMIName (''domino-eks-'' @ g @ ''-'' @ ''1.'' @ n @ ''-*'')
           = Inr \<lparr>HasNodegroup = True, Nodegroup = g, K8sVersion = ''1.'' @ n, Version = ''''\<rparr>
       \<and> ParseAMIName (''domino-eks-'' @ ''1.'' @ n @ ''-*'')
           = Inr \<lparr>HasNodegroup = False, Nodegroup = '''', K8sVersion = ''1.'' @ n, Version = ''''\<rparr>
       \<and> d \<noteq> ''''"
proof -
  note r = assms(3-6)
  note w = assms(3,4)
  have c1: "ParseAMIName (''domino-eks-'' @ g @ ''-'' @ ''1.'' @ n @ ''-v'' @ d)
      = Inr \<lparr>HasNodegroup = True, Nodegroup = g, K8sVersion = ''1.'' @ n, Version = d\<rparr>"
    unfolding ParseAMIName_def F1[OF assms] by simp
  have c2: "ParseAMIName (''domino-eks-'' @ ''1.'' @ n @ ''-v'' @ d)
      = Inr \<lparr>HasNodegroup = False, Nodegroup = '''', K8sVersion = ''1.'' @ n, Version = d\<rparr>"
    unfolding ParseAMIName_def F2a[OF r] F2b[OF r] by simp
  have b: "FindStringSubmatch reWithoutNodegroupVersion
      (''domino-eks-'' @ g @ ''-'' @ ''1.'' @ n @ ''-*'') = []"
    using F3b[of "''domino-eks-'' @ g @ ''-'' @ ''1.'' @ n @ ''-''"] by simp
  have c3: "ParseAMIName (''domino-eks-'' @ g @ ''-'' @ ''1.'' @ n @ ''-*'')
      = Inr \<lparr>HasNodegroup = True, Nodegroup = g, K8sVersion = ''1.'' @ n, Version = ''''\<rparr>"
    unfolding ParseAMIName_def F3a[OF assms(1-4)] b F3c[OF assms(1-4)] by simp
  have c4: "ParseAMIName (''domino-eks-'' @ ''1.'' @ n @ ''-*'')
      = Inr \<lparr>HasNodegroup = False, Nodegroup = '''', K8sVersion = ''1.'' @ n, Version = ''''\<rparr>"
    unfolding ParseAMIName_def F4a[OF w] F4b[OF w] F4c[OF w] F4d[OF w] by simp
  have "d \<noteq> ''''" using assms(5) by auto
  with c1 c2 c3 c4 show ?thesis by blast
qed

theorem ParseAMIName_grammar_witness:
  "''gpu'' \<noteq> [] \<and> CHR ''-'' \<notin> set ''gpu'' \<and> ''33'' \<noteq> [] \<and> list_all (inC Digit) ''33''
   \<and> length ''20251001'' = 8 \<and> list_all (inC Digit) ''20251001''
   \<and> ParseAMIName ''domino-eks-gpu-1.33-v20251001''
        = Inr \<lparr>HasNodegroup = True, Nodegroup = ''gpu'', K8sVersion = ''1.33'',
               Version = ''20251001''\<rparr>
   \<and> ParseAMIName ''domino-eks-1.33-v20251001''
        = Inr \<lparr>HasNodegroup = False, Nodegroup = '''', K8sVersion = ''1.33'',
               Version = ''20251001''\<rparr>
   \<and> ParseAMIName ''domino-eks-gpu-1.33-*''
        = Inr \<lparr>HasNodegroup = True, Nodegroup = ''gpu'', K8sVersion = ''1.33'', Version = ''''\<rparr>
   \<and> ParseAMIName ''domino-eks-1.33-*''
        = Inr \<lparr>HasNodegroup = False, Nodegroup = '''', K8sVersion = ''1.33'', Version = ''''\<rparr>"
  using ParseAMIName_grammar[of "''gpu''" "''33''" "''20251001''"] by simp

section \<open>A hyphenated group: offered as a version, rejected as a name\<close>

lemma gpu_small_rejected:
  "ParseAMIName ''domino-eks-gpu-small-1.33-v20251001''
     = Inl (InvalidAMIName ''domino-eks-gpu-small-1.33-v20251001'')"
  by (simp add: ParseAMIName_def FindStringSubmatch_def reWithNodegroupVersion_def
      reWithoutNodegroupVersion_def reWithNodegroupWildcard_def reWithoutNodegroupWildcard_def)

lemma gpu_small_matched:
  "matchedVersion ''1.33'' ''domino-eks-gpu-small-1.33-v20251001'' = Some ''20251001''"
  by (simp add: matchedVersion_def FindStringSubmatch_def patternWithNodegroup_def
      patternWithoutNodegroup_def)

text \<open>
  Claim C10. The expression of \<^verbatim>\<open>ExtractVersions\<close> for names with a group reads the group
  with \<^verbatim>\<open>.*\<close>, which takes hyphens, where \<open>ParseAMIName\<close> reads it with \<^verbatim>\<open>[^-]+\<close>. So
  the AMI name \<^verbatim>\<open>domino-eks-gpu-small-1.33-v20251001\<close> is no name for \<open>ParseAMIName\<close>
  (an error), and yet \<^verbatim>\<open>ExtractVersions\<close> for Kubernetes 1.33 counts it as a match and
  makes the version item 20251001 of it.
\<close>

theorem hyphenated_group_offered:
  "ParseAMIName ''domino-eks-gpu-small-1.33-v20251001''
     = Inl (InvalidAMIName ''domino-eks-gpu-small-1.33-v20251001'')
   \<and> matchedVersion ''1.33'' ''domino-eks-gpu-small-1.33-v20251001'' = Some ''20251001''
   \<and> ExtractVersions
        [\<lparr>ami_Name = ''domino-eks-gpu-small-1.33-v20251001'', ImageID = i, CreationDate = c\<rparr>]
        ''1.33''
      = Inr [\<lparr>item_Version = ''20251001'', item_Date = ParseDate c\<rparr>]"
  by (simp add: gpu_small_rejected gpu_small_matched ExtractVersions_def recordVersion_def
      sortSlice_def)

section \<open>The callback of waitForNodeClaims\<close>

text \<open>
  Claim C2, as amended. The function \<^verbatim>\<open>waitForNodeClaims\<close> hands to the monitor returns
  true (go on) for every list of statuses, also when the list is not empty and no status
  is drifted: it then prints \<^verbatim>\<open>All nodeclaims are undrifted!\<close> and still returns true.
  It never returns false, so it never asks the poll loop to stop.
\<close>

theorem waitForNodeClaims_callback_continues:
  "snd (waitForNodeClaims_callback statuses) = True
   \<and> (fst (waitForNodeClaims_callback statuses) = AllUndrifted
        \<longleftrightarrow> statuses \<noteq> [] \<and> list_all (\<lambda>status. \<not> Drifted status) statuses)"
proof -
  have cnt: "foldl (\<lambda>n status. if Drifted status then n + 1 else n) k statuses
      = k + length (filter Drifted statuses)" for k :: nat
    by (induction statuses arbitrary: k) auto
  have z: "(length (filter Drifted statuses) = 0) = list_all (\<lambda>status. \<not> Drifted status) statuses"
    by (induction statuses) auto
  show ?thesis
    using z by (auto simp: waitForNodeClaims_callback_def cnt Let_def)
qed

text \<open>
  The claim as stated fails: at a tick with one node claim, not drifted, the callback
  returns true.
\<close>

theorem callback_continues_when_all_undrifted:
  "list_all (\<lambda>status. \<not> Drifted status)
     [\<lparr>status_Name = ''default-x7k2p'', status_NodeClass = ''domino-eks-gpu'',
       Age = 90000000000, Drifted = False, Reason = ''''\<rparr>]
   \<and> waitForNodeClaims_callback
       [\<lparr>status_Name = ''default-x7k2p'', status_NodeClass = ''domino-eks-gpu'',
         Age = 90000000000, Drifted = False, Reason = ''''\<rparr>]
     = (AllUndrifted, True)"
  by (simp add: waitForNodeClaims_callback_def)

section \<open>UpdateNodeClass on a document without selector terms\<close>

text \<open>
  Claim C9. When the document \<^verbatim>\<open>kubectl get\<close> prints is an object with no \<^verbatim>\<open>spec\<close>, or
  whose \<^verbatim>\<open>spec\<close> is an object with no \<^verbatim>\<open>amiSelectorTerms\<close> or with an empty list of
  them, \<^verbatim>\<open>UpdateNodeClass\<close> panics (a type assertion on nil, or index 0 of an empty
  slice): it returns no error value for these documents.
\<close>

theorem UpdateNodeClass_panics:
  assumes "kubectlGet name = Output (JObject nodeclass)"
    and "map_of nodeclass ''spec'' = None
         \<or> (\<exists>spec. map_of nodeclass ''spec'' = Some (JObject spec)
               \<and> (map_of spec ''amiSelectorTerms'' = None
                    \<or> map_of spec ''amiSelectorTerms'' = Some (JArray [])))"
  shows "UpdateNodeClass kubectlGet kubectlApply name ami = Panic"
  using assms by (auto simp: UpdateNodeClass_def)

theorem UpdateNodeClass_panics_witness:
  "UpdateNodeClass (\<lambda>name. Output (JObject [(''kind'', JString ''EC2NodeClass'')]))
      (\<lambda>doc. True) ''domino-eks-gpu'' ''domino-eks-gpu-1.33-v20251001'' = Panic
   \<and> UpdateNodeClass
      (\<lambda>name. Output (JObject [(''spec'', JObject [(''role'', JString ''node'')])]))
      (\<lambda>doc. True) ''domino-eks-gpu'' ''domino-eks-gpu-1.33-v20251001'' = Panic
   \<and> UpdateNodeClass
      (\<lambda>name. Output (JObject [(''spec'', JObject [(''amiSelectorTerms'', JArray [])])]))
      (\<lambda>doc. True) ''domino-eks-gpu'' ''domino-eks-gpu-1.33-v20251001'' = Panic"
proof -
  let ?ami = "''domino-eks-gpu-1.33-v20251001''"
  have a: "UpdateNodeClass (\<lambda>name. Output (JObject [(''kind'', JString ''EC2NodeClass'')]))
      (\<lambda>doc. True) ''domino-eks-gpu'' ?ami = Panic"
    by (rule UpdateNodeClass_panics, simp, simp)
  have b: "UpdateNodeClass
      (\<lambda>name. Output (JObject [(''spec'', JObject [(''role'', JString ''node'')])]))
      (\<lambda>doc. True) ''domino-eks-gpu'' ?ami = Panic"
    by (rule UpdateNodeClass_panics, simp, simp)
  have c: "UpdateNodeClass
      (\<lambda>name. Output (JObject [(''spec'', JObject [(''amiSelectorTerms'', JArray [])])]))
      (\<lambda>doc. True) ''domino-eks-gpu'' ?ami = Panic"
    by (rule UpdateNodeClass_panics, simp, simp)
  from a b c show ?thesis by blast
qed

section \<open>What a parsed pattern says about the name\<close>

lemma ParseAMIName_Inr:
  assumes "ParseAMIName s = Inr pat"
  shows "(\<exists>n. n \<noteq> [] \<and> list_all (inC Digit) n \<and> K8sVersion pat = ''1.'' @ n)
    \<and> (if HasNodegroup pat then Nodegroup pat \<noteq> [] \<and> CHR ''-'' \<notin> set (Nodegroup pat)
        else Nodegroup pat = [])
    \<and> (Version pat = [] \<or>
         length (Version pat) = 8 \<and> list_all (inC Digit) (Version pat)
         \<and> s = (if HasNodegroup pat
                then ''domino-eks-'' @ Nodegroup pat @ ''-'' @ K8sVersion pat @ ''-v'' @ Version pat
                else ''domino-eks-'' @ K8sVersion pat @ ''-v'' @ Version pat))"
proof -
  consider
    (a) g n d where "g \<noteq> []" "CHR ''-'' \<notin> set g" "n \<noteq> []" "list_all (inC Digit) n"
      "length d = 8" "list_all (inC Digit) d"
      "s = ''domino-eks-'' @ g @ ''-'' @ ''1.'' @ n @ ''-v'' @ d"
      "FindStringSubmatch reWithNodegroupVersion s = [s, g, ''1.'' @ n, d]"
  | (b) n d where "FindStringSubmatch reWithNodegroupVersion s = []"
      "n \<noteq> []" "list_all (inC Digit) n" "length d = 8" "list_all (inC Digit) d"
      "s = ''domino-eks-'' @ ''1.'' @ n @ ''-v'' @ d"
      "FindStringSubmatch reWithoutNodegroupVersion s = [s, ''1.'' @ n, d]"
  | (c) g n where "FindStringSubmatch reWithNodegroupVersion s = []"
      "FindStringSubmatch reWithoutNodegroupVersion s = []"
      "g \<noteq> []" "CHR ''-'' \<notin> set g" "n \<noteq> []" "list_all (inC Digit) n"
      "FindStringSubmatch reWithNodegroupWildcard s = [s, g, ''1.'' @ n]"
  | (d) n where "FindStringSubmatch reWithNodegroupVersion s = []"
      "FindStringSubmatch reWithoutNodegroupVersion s = []"
      "FindStringSubmatch reWithNodegroupWildcard s = []"
      "n \<noteq> []" "list_all (inC Digit) n"
      "FindStringSubmatch reWithoutNodegroupWildcard s = [s, ''1.'' @ n]"
  | (e) "FindStringSubmatch reWithNodegroupVersion s = []"
      "FindStringSubmatch reWithoutNodegroupVersion s = []"
      "FindStringSubmatch reWithNodegroupWildcard s = []"
      "FindStringSubmatch reWithoutNodegroupWildcard s = []"
    using FSS1[of s] FSS2[of s] FSS3[of s] FSS4[of s] by blast
  then show ?thesis
  proof cases
    case a
    have "ParseAMIName s
        = Inr \<lparr>HasNodegroup = True, Nodegroup = g, K8sVersion = ''1.'' @ n, Version = d\<rparr>"
      unfolding ParseAMIName_def a(8) by simp
    with assms have "pat = \<lparr>HasNodegroup = True, Nodegroup = g, K8sVersion = ''1.'' @ n, Version = d\<rparr>"
      by simp
    with a show ?thesis by simp
  next
    case b
    have "ParseAMIName s
        = Inr \<lparr>HasNodegroup = False, Nodegroup = '''', K8sVersion = ''1.'' @ n, Version = d\<rparr>"
      unfolding ParseAMIName_def b(1) b(7) by simp
    with assms have "pat = \<lparr>HasNodegroup = False, Nodegroup = '''', K8sVersion = ''1.'' @ n, Version = d\<rparr>"
      by simp
    with b show ?thesis by simp
  next
    case c
    have "ParseAMIName s
        = Inr \<lparr>HasNodegroup = True, Nodegroup = g, K8sVersion = ''1.'' @ n, Version = ''''\<rparr>"
      unfolding ParseAMIName_def c(1) c(2) c(7) by simp
    with assms have "pat = \<lparr>HasNodegroup = True, Nodegroup = g, K8sVersion = ''1.'' @ n, Version = ''''\<rparr>"
      by simp
    with c show ?thesis by simp
  next
    case d
    have "ParseAMIName s
        = Inr \<lparr>HasNodegroup = False, Nodegroup = '''', K8sVersion = ''1.'' @ n, Version = ''''\<rparr>"
      unfolding ParseAMIName_def d(1) d(2) d(3) d(6) by simp
    with assms have "pat = \<lparr>HasNodegroup = False, Nodegroup = '''', K8sVersion = ''1.'' @ n, Version = ''''\<rparr>"
      by simp
    with d show ?thesis by simp
  next
    case e
    have "ParseAMIName s = Inl (InvalidAMIName s)"
      unfolding ParseAMIName_def e by simp
    with assms show ?thesis by simp
  qed
qed

section \<open>The registry and the plan of a fleet\<close>

lemma registerNodeClass_other:
  "k \<noteq> Metadata_Name nc \<Longrightarrow> registerNodeClass m nc k = m k"
  by (simp add: registerNodeClass_def split: list.splits sum.splits)

lemma registerNodeClass_twice:
  "Metadata_Name x \<noteq> Metadata_Name nc \<Longrightarrow>
   registerNodeClass (registerNodeClass m x) nc (Metadata_Name nc)
   = registerNodeClass m nc (Metadata_Name nc)"
  by (simp add: registerNodeClass_def split: list.splits sum.splits)

lemma foldl_registerNodeClass_absent:
  "k \<notin> Metadata_Name ` set items \<Longrightarrow> foldl registerNodeClass m items k = m k"
  by (induction items arbitrary: m) (simp_all add: registerNodeClass_other)

lemma foldl_registerNodeClass_lookup:
  "distinct (map Metadata_Name items) \<Longrightarrow> nc \<in> set items \<Longrightarrow>
   foldl registerNodeClass m items (Metadata_Name nc)
   = registerNodeClass m nc (Metadata_Name nc)"
proof (induction items arbitrary: m)
  case Nil
  then show ?case by simp
next
  case (Cons x xs)
  show ?case
  proof (cases "nc = x")
    case True
    with Cons.prems have "Metadata_Name nc \<notin> Metadata_Name ` set xs" by simp
    then show ?thesis using True by (simp add: foldl_registerNodeClass_absent)
  next
    case False
    with Cons.prems have in_xs: "nc \<in> set xs" and d: "distinct (map Metadata_Name xs)"
      and ne: "Metadata_Name x \<noteq> Metadata_Name nc" by auto
    from Cons.IH[OF d in_xs, of "registerNodeClass m x"] ne show ?thesis
      by (simp add: registerNodeClass_twice)
  qed
qed

lemma BuildNodeClassMap_lookup:
  assumes "distinct (map Metadata_Name items)" "nc \<in> set items"
    "Spec_AMISelectorTerms nc = t # ts" "ParseAMIName (term_Name t) = Inr pattern"
  shows "BuildNodeClassMap items (Metadata_Name nc) = Some (inferInfo (Metadata_Name nc) pattern)"
  unfolding BuildNodeClassMap_def foldl_registerNodeClass_lookup[OF assms(1,2)]
  using assms(3,4) by (simp add: registerNodeClass_def)

lemma planStep_set:
  "set (foldl (planStep m vd) acc items)
   = set acc \<union> {ch. \<exists>nc \<in> set items. planNodeClass m vd nc = Change ch}"
  by (induction items arbitrary: acc) (auto simp: planStep_def split: planned.splits)

lemma TrimPrefix_v: "TrimPrefix (''v'' @ d) ''v'' = d"
  by (simp add: TrimPrefix_def)

lemma main_changes_set:
  "set (main_changes items (''v'' @ d))
   = {ch. \<exists>nc \<in> set items. planNodeClass (BuildNodeClassMap items) d nc = Change ch}"
  unfolding main_changes_def Let_def TrimPrefix_v by (simp add: planStep_set)

lemma parse_wildcard_133:
  "ParseAMIName ''domino-eks-1.33-*''
   = Inr \<lparr>HasNodegroup = False, Nodegroup = '''', K8sVersion = ''1.33'', Version = ''''\<rparr>"
  using F4a[of "''33''"] F4b[of "''33''"] F4c[of "''33''"] F4d[of "''33''"]
  by (simp add: ParseAMIName_def)

lemma parse_wildcard_gpu_133:
  "ParseAMIName ''domino-eks-gpu-1.33-*''
   = Inr \<lparr>HasNodegroup = True, Nodegroup = ''gpu'', K8sVersion = ''1.33'', Version = ''''\<rparr>"
  using F3a[of "''gpu''" "''33''"] F3b[of "''domino-eks-gpu-1.33-''"] F3c[of "''gpu''" "''33''"]
  by (simp add: ParseAMIName_def)

lemma parse_resolved_gpu_133:
  "ParseAMIName ''domino-eks-gpu-1.33-v20251001''
   = Inr \<lparr>HasNodegroup = True, Nodegroup = ''gpu'', K8sVersion = ''1.33'',
          Version = ''20251001''\<rparr>"
  using F1[of "''gpu''" "''33''" "''20251001''"]
  by (simp add: ParseAMIName_def)

lemma inferInfo_gpu:
  "inferInfo ''domino-eks-gpu''
     \<lparr>HasNodegroup = False, Nodegroup = '''', K8sVersion = ''1.33'', Version = ''''\<rparr>
   = \<lparr>info_HasNodegroup = False, info_Nodegroup = ''gpu''\<rparr>"
  by (simp add: inferInfo_def)

section \<open>The inferred group\<close>

text \<open>
  Claim C1, as amended. For a node class named \<^verbatim>\<open>domino-eks-gpu\<close> whose image
  reference is the wildcard \<^verbatim>\<open>domino-eks-1.33-*\<close> (no group), in a fleet with distinct
  names: the registry entry holds the group \<^verbatim>\<open>gpu\<close>, taken from the node class's name,
  and keeps \<^verbatim>\<open>HasNodegroup\<close> false, as in the parsed pattern; the plan's new reference
  for the chosen date \<open>d\<close> is \<^verbatim>\<open>domino-eks-1.33-v<d>\<close>, without the group, because the
  plan attaches the registry's group only when \<^verbatim>\<open>HasNodegroup\<close> is true.
\<close>

theorem inferred_group_not_reattached:
  assumes "distinct (map Metadata_Name items)" "nc \<in> set items"
    "Metadata_Name nc = ''domino-eks-gpu''"
    "Spec_AMISelectorTerms nc = t # ts" "term_Name t = ''domino-eks-1.33-*''"
  shows "BuildNodeClassMap items ''domino-eks-gpu''
           = Some \<lparr>info_HasNodegroup = False, info_Nodegroup = ''gpu''\<rparr>
       \<and> planNodeClass (BuildNodeClassMap items) d nc
           = Change \<lparr>nodeclassName = ''domino-eks-gpu'', oldAMI = ''domino-eks-1.33-*'',
                     newAMI = ''domino-eks-1.33-v'' @ d\<rparr>
       \<and> \<lparr>nodeclassName = ''domino-eks-gpu'', oldAMI = ''domino-eks-1.33-*'',
           newAMI = ''domino-eks-1.33-v'' @ d\<rparr> \<in> set (main_changes items (''v'' @ d))"
proof -
  have p: "ParseAMIName (term_Name t)
      = Inr \<lparr>HasNodegroup = False, Nodegroup = '''', K8sVersion = ''1.33'', Version = ''''\<rparr>"
    unfolding assms(5) by (rule parse_wildcard_133)
  from BuildNodeClassMap_lookup[OF assms(1,2,4) p]
  have m: "BuildNodeClassMap items ''domino-eks-gpu''
      = Some \<lparr>info_HasNodegroup = False, info_Nodegroup = ''gpu''\<rparr>"
    unfolding assms(3) inferInfo_gpu .
  have c: "planNodeClass (BuildNodeClassMap items) d nc
      = Change \<lparr>nodeclassName = ''domino-eks-gpu'', oldAMI = ''domino-eks-1.33-*'',
                newAMI = ''domino-eks-1.33-v'' @ d\<rparr>"
    using assms(3,4,5) p m by (simp add: planNodeClass_def newAMIName_def)
  from c assms(2) have "\<lparr>nodeclassName = ''domino-eks-gpu'', oldAMI = ''domino-eks-1.33-*'',
      newAMI = ''domino-eks-1.33-v'' @ d\<rparr> \<in> set (main_changes items (''v'' @ d))"
    unfolding main_changes_set by blast
  with m c show ?thesis by blast
qed

theorem inferred_group_not_reattached_witness:
  "BuildNodeClassMap
     [\<lparr>APIVersion = ''karpenter.k8s.aws/v1'', Kind = ''EC2NodeClass'',
       Metadata_Name = ''domino-eks-gpu'',
       Spec_AMISelectorTerms = [\<lparr>term_Name = ''domino-eks-1.33-*'', Owner = ''123456789012''\<rparr>]\<rparr>]
     ''domino-eks-gpu''
     = Some \<lparr>info_HasNodegroup = False, info_Nodegroup = ''gpu''\<rparr>
   \<and> \<lparr>nodeclassName = ''domino-eks-gpu'', oldAMI = ''domino-eks-1.33-*'',
       newAMI = ''domino-eks-1.33-v20251001''\<rparr>
     \<in> set (main_changes
         [\<lparr>APIVersion = ''karpenter.k8s.aws/v1'', Kind = ''EC2NodeClass'',
           Metadata_Name = ''domino-eks-gpu'',
           Spec_AMISelectorTerms =
             [\<lparr>term_Name = ''domino-eks-1.33-*'', Owner = ''123456789012''\<rparr>]\<rparr>]
         ''v20251001'')"
  using inferred_group_not_reattached[of
      "[\<lparr>APIVersion = ''karpenter.k8s.aws/v1'', Kind = ''EC2NodeClass'',
         Metadata_Name = ''domino-eks-gpu'',
         Spec_AMISelectorTerms = [\<lparr>term_Name = ''domino-eks-1.33-*'', Owner = ''123456789012''\<rparr>]\<rparr>]"
      "\<lparr>APIVersion = ''karpenter.k8s.aws/v1'', Kind = ''EC2NodeClass'',
         Metadata_Name = ''domino-eks-gpu'',
         Spec_AMISelectorTerms = [\<lparr>term_Name = ''domino-eks-1.33-*'', Owner = ''123456789012''\<rparr>]\<rparr>"
      "\<lparr>term_Name = ''domino-eks-1.33-*'', Owner = ''123456789012''\<rparr>" "[]" "''20251001''"]
  by simp

text \<open>
  The claim as stated fails: for the fleet of that one node class and the date 20251001
  the plan's new reference is \<^verbatim>\<open>domino-eks-1.33-v20251001\<close>, not
  \<^verbatim>\<open>domino-eks-gpu-1.33-v20251001\<close>.
\<close>

theorem group_inference_counterexample:
  "main_changes
     [\<lparr>APIVersion = ''karpenter.k8s.aws/v1'', Kind = ''EC2NodeClass'',
       Metadata_Name = ''domino-eks-gpu'',
       Spec_AMISelectorTerms = [\<lparr>term_Name = ''domino-eks-1.33-*'', Owner = ''123456789012''\<rparr>]\<rparr>]
     ''v20251001''
   = [\<lparr>nodeclassName = ''domino-eks-gpu'', oldAMI = ''domino-eks-1.33-*'',
       newAMI = ''domino-eks-1.33-v20251001''\<rparr>]
   \<and> ''domino-eks-1.33-v20251001'' \<noteq> ''domino-eks-gpu-1.33-v20251001''"
  by (simp add: main_changes_def BuildNodeClassMap_def registerNodeClass_def planStep_def
      planNodeClass_def parse_wildcard_133 inferInfo_gpu newAMIName_def TrimPrefix_def)

text \<open>
  Claim C8. In a fleet with distinct names, take a node class whose first selector term
  parses to a pattern without a group and whose name does not split at hyphens into
  three or more pieces of which the first is \<^verbatim>\<open>domino\<close> and the second \<^verbatim>\<open>eks\<close>. The
  registry still has an entry for it, with \<^verbatim>\<open>HasNodegroup\<close> false and the empty group.
  \<^verbatim>\<open>BuildNodeClassMap\<close> returns the map and nothing else (it has no error result and writes
  nothing), so the name that breaks the convention goes unreported.
\<close>

theorem convention_violation_is_silent:
  assumes "distinct (map Metadata_Name items)" "nc \<in> set items"
    "Spec_AMISelectorTerms nc = t # ts" "ParseAMIName (term_Name t) = Inr pattern"
    "\<not> HasNodegroup pattern"
    "\<not> (length (Split (Metadata_Name nc) (CHR ''-'')) \<ge> 3
        \<and> Split (Metadata_Name nc) (CHR ''-'') ! 0 = ''domino''
        \<and> Split (Metadata_Name nc) (CHR ''-'') ! 1 = ''eks'')"
  shows "BuildNodeClassMap items (Metadata_Name nc)
         = Some \<lparr>info_HasNodegroup = False, info_Nodegroup = ''''\<rparr>"
proof -
  from ParseAMIName_Inr[OF assms(4)] assms(5) have ng: "Nodegroup pattern = ''''" by simp
  have "inferInfo (Metadata_Name nc) pattern
      = \<lparr>info_HasNodegroup = False, info_Nodegroup = ''''\<rparr>"
    using assms(5,6) ng by (auto simp: inferInfo_def Let_def)
  with BuildNodeClassMap_lookup[OF assms(1-4)] show ?thesis by simp
qed

theorem convention_violation_is_silent_witness:
  "BuildNodeClassMap
     [\<lparr>APIVersion = ''karpenter.k8s.aws/v1'', Kind = ''EC2NodeClass'',
       Metadata_Name = ''gpu-pool'',
       Spec_AMISelectorTerms = [\<lparr>term_Name = ''domino-eks-1.33-*'', Owner = ''123456789012''\<rparr>]\<rparr>]
     ''gpu-pool''
   = Some \<lparr>info_HasNodegroup = False, info_Nodegroup = ''''\<rparr>"
  using convention_violation_is_silent[of
      "[\<lparr>APIVersion = ''karpenter.k8s.aws/v1'', Kind = ''EC2NodeClass'',
         Metadata_Name = ''gpu-pool'',
         Spec_AMISelectorTerms = [\<lparr>term_Name = ''domino-eks-1.33-*'', Owner = ''123456789012''\<rparr>]\<rparr>]"
      "\<lparr>APIVersion = ''karpenter.k8s.aws/v1'', Kind = ''EC2NodeClass'',
         Metadata_Name = ''gpu-pool'',
         Spec_AMISelectorTerms = [\<lparr>term_Name = ''domino-eks-1.33-*'', Owner = ''123456789012''\<rparr>]\<rparr>"
      "\<lparr>term_Name = ''domino-eks-1.33-*'', Owner = ''123456789012''\<rparr>" "[]"
      "\<lparr>HasNodegroup = False, Nodegroup = '''', K8sVersion = ''1.33'', Version = ''''\<rparr>"]
  by (simp add: parse_wildcard_133)

section \<open>Running the plan again\<close>

text \<open>
  Claim C5. In a fleet with distinct names, take a node class whose first selector term
  parses to a resolved pattern (its date is not empty) and choose that date in the menu.
  Then the plan holds, for this node class, a change whose new reference is its old
  reference.
\<close>

theorem plan_reentrant:
  assumes "distinct (map Metadata_Name items)" "nc \<in> set items"
    "Spec_AMISelectorTerms nc = t # ts" "ParseAMIName (term_Name t) = Inr pattern"
    "Version pattern \<noteq> ''''"
  shows "planNodeClass (BuildNodeClassMap items) (Version pattern) nc
           = Change \<lparr>nodeclassName = Metadata_Name nc, oldAMI = term_Name t,
                     newAMI = term_Name t\<rparr>
       \<and> \<lparr>nodeclassName = Metadata_Name nc, oldAMI = term_Name t, newAMI = term_Name t\<rparr>
           \<in> set (main_changes items (''v'' @ Version pattern))"
proof -
  let ?info = "inferInfo (Metadata_Name nc) pattern"
  from ParseAMIName_Inr[OF assms(4)] assms(5)
  have s: "term_Name t = (if HasNodegroup pattern
      then ''domino-eks-'' @ Nodegroup pattern @ ''-'' @ K8sVersion pattern @ ''-v''
             @ Version pattern
      else ''domino-eks-'' @ K8sVersion pattern @ ''-v'' @ Version pattern)"
    by blast
  have "newAMIName ?info pattern (Version pattern) = term_Name t"
    unfolding s by (simp add: newAMIName_def inferInfo_def Let_def)
  with BuildNodeClassMap_lookup[OF assms(1-4)] assms(3,4)
  have c: "planNodeClass (BuildNodeClassMap items) (Version pattern) nc
      = Change \<lparr>nodeclassName = Metadata_Name nc, oldAMI = term_Name t,
                newAMI = term_Name t\<rparr>"
    by (simp add: planNodeClass_def)
  with assms(2) have "\<lparr>nodeclassName = Metadata_Name nc, oldAMI = term_Name t,
      newAMI = term_Name t\<rparr> \<in> set (main_changes items (''v'' @ Version pattern))"
    unfolding main_changes_set by blast
  with c show ?thesis by blast
qed

theorem plan_reentrant_witness:
  "\<lparr>nodeclassName = ''domino-eks-gpu'', oldAMI = ''domino-eks-gpu-1.33-v20251001'',
     newAMI = ''domino-eks-gpu-1.33-v20251001''\<rparr>
   \<in> set (main_changes
       [\<lparr>APIVersion = ''karpenter.k8s.aws/v1'', Kind = ''EC2NodeClass'',
         Metadata_Name = ''domino-eks-gpu'',
         Spec_AMISelectorTerms =
           [\<lparr>term_Name = ''domino-eks-gpu-1.33-v20251001'', Owner = ''123456789012''\<rparr>]\<rparr>]
       ''v20251001'')"
  using plan_reentrant[of
      "[\<lparr>APIVersion = ''karpenter.k8s.aws/v1'', Kind = ''EC2NodeClass'',
         Metadata_Name = ''domino-eks-gpu'',
         Spec_AMISelectorTerms =
           [\<lparr>term_Name = ''domino-eks-gpu-1.33-v20251001'', Owner = ''123456789012''\<rparr>]\<rparr>]"
      "\<lparr>APIVersion = ''karpenter.k8s.aws/v1'', Kind = ''EC2NodeClass'',
         Metadata_Name = ''domino-eks-gpu'',
         Spec_AMISelectorTerms =
           [\<lparr>term_Name = ''domino-eks-gpu-1.33-v20251001'', Owner = ''123456789012''\<rparr>]\<rparr>"
      "\<lparr>term_Name = ''domino-eks-gpu-1.33-v20251001'', Owner = ''123456789012''\<rparr>" "[]"
      "\<lparr>HasNodegroup = True, Nodegroup = ''gpu'', K8sVersion = ''1.33'',
        Version = ''20251001''\<rparr>"]
  by (simp add: parse_resolved_gpu_133)

text \<open>
  Claim C6. Let \<open>pattern\<close> be what \<open>ParseAMIName\<close> returns for some name, \<open>info\<close> agree
  with it (the same \<^verbatim>\<open>HasNodegroup\<close>, and the pattern's group when there is one, as
  \<open>inferInfo\<close> makes it) and \<open>d\<close> be a date of eight digits. Then the synthesized name
  parses, to the pattern with date \<open>d\<close>, and synthesizing from that pattern with \<open>info\<close>
  and \<open>d\<close> gives the synthesized name again.
\<close>

theorem synthesize_parse_idempotent:
  assumes "ParseAMIName amiName = Inr pattern"
    "info_HasNodegroup info = HasNodegroup pattern"
    "HasNodegroup pattern \<Longrightarrow> info_Nodegroup info = Nodegroup pattern"
    "length d = 8" "list_all (inC Digit) d"
  shows "ParseAMIName (newAMIName info pattern d) = Inr (pattern\<lparr>Version := d\<rparr>)
       \<and> newAMIName info (pattern\<lparr>Version := d\<rparr>) d = newAMIName info pattern d"
proof -
  from ParseAMIName_Inr[OF assms(1)] obtain n where n: "n \<noteq> []" "list_all (inC Digit) n"
    "K8sVersion pattern = ''1.'' @ n"
    and g: "if HasNodegroup pattern
            then Nodegroup pattern \<noteq> [] \<and> CHR ''-'' \<notin> set (Nodegroup pattern)
            else Nodegroup pattern = []"
    by blast
  have same: "newAMIName info (pattern\<lparr>Version := d\<rparr>) d = newAMIName info pattern d"
    by (simp add: newAMIName_def)
  show ?thesis
  proof (cases "HasNodegroup pattern")
    case True
    with g have gg: "Nodegroup pattern \<noteq> []" "CHR ''-'' \<notin> set (Nodegroup pattern)" by simp_all
    have nm: "newAMIName info pattern d
        = ''domino-eks-'' @ Nodegroup pattern @ ''-'' @ ''1.'' @ n @ ''-v'' @ d"
      using True assms(2,3) n(3) by (simp add: newAMIName_def)
    have "ParseAMIName (newAMIName info pattern d)
        = Inr \<lparr>HasNodegroup = True, Nodegroup = Nodegroup pattern, K8sVersion = ''1.'' @ n,
               Version = d\<rparr>"
      unfolding nm ParseAMIName_def F1[OF gg n(1,2) assms(4,5)] by simp
    also have "\<lparr>HasNodegroup = True, Nodegroup = Nodegroup pattern, K8sVersion = ''1.'' @ n,
               Version = d\<rparr> = pattern\<lparr>Version := d\<rparr>"
      using True n(3) by simp
    finally show ?thesis using same by simp
  next
    case False
    with g have gg: "Nodegroup pattern = []" by simp
    have nm: "newAMIName info pattern d = ''domino-eks-'' @ ''1.'' @ n @ ''-v'' @ d"
      using False assms(2) n(3) by (simp add: newAMIName_def)
    have "ParseAMIName (newAMIName info pattern d)
        = Inr \<lparr>HasNodegroup = False, Nodegroup = '''', K8sVersion = ''1.'' @ n, Version = d\<rparr>"
      unfolding nm ParseAMIName_def F2a[OF n(1,2) assms(4,5)] F2b[OF n(1,2) assms(4,5)] by simp
    also have "\<lparr>HasNodegroup = False, Nodegroup = '''', K8sVersion = ''1.'' @ n, Version = d\<rparr>
        = pattern\<lparr>Version := d\<rparr>"
      using False n(3) gg by simp
    finally show ?thesis using same by simp
  qed
qed

theorem synthesize_parse_idempotent_witness:
  "ParseAMIName
     (newAMIName
        (inferInfo ''domino-eks-gpu''
           \<lparr>HasNodegroup = True, Nodegroup = ''gpu'', K8sVersion = ''1.33'', Version = ''''\<rparr>)
        \<lparr>HasNodegroup = True, Nodegroup = ''gpu'', K8sVersion = ''1.33'', Version = ''''\<rparr>
        ''20251001'')
   = Inr \<lparr>HasNodegroup = True, Nodegroup = ''gpu'', K8sVersion = ''1.33'',
          Version = ''20251001''\<rparr>
   \<and> newAMIName
        (inferInfo ''domino-eks-gpu''
           \<lparr>HasNodegroup = True, Nodegroup = ''gpu'', K8sVersion = ''1.33'', Version = ''''\<rparr>)
        \<lparr>HasNodegroup = True, Nodegroup = ''gpu'', K8sVersion = ''1.33'',
          Version = ''20251001''\<rparr>
        ''20251001''
     = ''domino-eks-gpu-1.33-v20251001''"
  using synthesize_parse_idempotent[of "''domino-eks-gpu-1.33-*''"
      "\<lparr>HasNodegroup = True, Nodegroup = ''gpu'', K8sVersion = ''1.33'', Version = ''''\<rparr>"
      "inferInfo ''domino-eks-gpu''
         \<lparr>HasNodegroup = True, Nodegroup = ''gpu'', K8sVersion = ''1.33'', Version = ''''\<rparr>"
      "''20251001''"]
  by (simp add: parse_wildcard_gpu_133 inferInfo_def newAMIName_def)

section \<open>The loop of ExtractVersions\<close>

lemma recordVersion_keys:
  "fst ` set (recordVersion k vs a)
   = fst ` set vs \<union> (case matchedVersion k (ami_Name a) of None \<Rightarrow> {} | Some v \<Rightarrow> {v})"
proof (cases "matchedVersion k (ami_Name a)")
  case None
  then show ?thesis by (simp add: recordVersion_def)
next
  case (Some v)
  show ?thesis
  proof (cases "map_of vs v")
    case None
    with Some show ?thesis by (simp add: recordVersion_def dom_update)
  next
    case (Some e)
    then have "(v, e) \<in> set vs" by (rule map_of_SomeD)
    then have "v \<in> fst ` set vs" by force
    with Some \<open>matchedVersion k (ami_Name a) = Some v\<close> show ?thesis
      by (auto simp: recordVersion_def dom_update)
  qed
qed

lemma foldl_recordVersion_keys:
  "fst ` set (foldl (recordVersion k) acc amis)
   = fst ` set acc \<union> {v. \<exists>ami \<in> set amis. matchedVersion k (ami_Name ami) = Some v}"
proof (induction amis arbitrary: acc)
  case Nil
  then show ?case by simp
next
  case (Cons a amis)
  show ?case
    unfolding foldl_Cons Cons.IH recordVersion_keys
    by (cases "matchedVersion k (ami_Name a)") auto
qed

lemma recordVersion_distinct:
  "distinct (map fst vs) \<Longrightarrow> distinct (map fst (recordVersion k vs a))"
  by (simp add: recordVersion_def distinct_update split: option.splits)

lemma foldl_recordVersion_distinct:
  "distinct (map fst acc) \<Longrightarrow> distinct (map fst (foldl (recordVersion k) acc amis))"
  by (induction amis arbitrary: acc) (simp_all add: recordVersion_distinct)

lemma recordVersion_map_of:
  "map_of (recordVersion k vs a) v =
     (if matchedVersion k (ami_Name a) = Some v
      then (case map_of vs v of
              None \<Rightarrow> Some (CreationDate a)
            | Some e \<Rightarrow> Some (max e (CreationDate a)))
      else map_of vs v)"
proof (cases "matchedVersion k (ami_Name a)")
  case None
  then show ?thesis by (simp add: recordVersion_def)
next
  case (Some w)
  show ?thesis
  proof (cases "w = v")
    case True
    with Some show ?thesis
      by (cases "map_of vs v") (auto simp: recordVersion_def update_conv max_def)
  next
    case False
    with Some show ?thesis
      by (cases "map_of vs w") (auto simp: recordVersion_def update_conv)
  qed
qed

lemma foldl_recordVersion_map_of:
  "map_of (foldl (recordVersion k) [] amis) v =
     (if {ami \<in> set amis. matchedVersion k (ami_Name ami) = Some v} = {} then None
      else Some (Max (CreationDate `
             {ami \<in> set amis. matchedVersion k (ami_Name ami) = Some v})))"
proof (induction amis rule: rev_induct)
  case Nil
  then show ?case by simp
next
  case (snoc a amis)
  let ?M = "\<lambda>xs. {ami \<in> set xs. matchedVersion k (ami_Name ami) = Some v}"
  let ?vs = "foldl (recordVersion k) [] amis"
  show ?case
  proof (cases "matchedVersion k (ami_Name a) = Some v")
    case False
    then have "?M (amis @ [a]) = ?M amis" by auto
    with snoc.IH False show ?thesis by (simp add: recordVersion_map_of)
  next
    case True
    then have eq: "?M (amis @ [a]) = insert a (?M amis)" by auto
    have rhsne: "?M (amis @ [a]) \<noteq> {}" unfolding eq by simp
    have step: "map_of (foldl (recordVersion k) [] (amis @ [a])) v
        = (case map_of ?vs v of None \<Rightarrow> Some (CreationDate a)
           | Some e \<Rightarrow> Some (max e (CreationDate a)))"
      using True by (simp add: recordVersion_map_of)
    show ?thesis
    proof (cases "?M amis = {}")
      case e: True
      with snoc.IH have "map_of ?vs v = None" by simp
      with step have lhs: "map_of (foldl (recordVersion k) [] (amis @ [a])) v
          = Some (CreationDate a)" by simp
      have mx: "Max (CreationDate ` ?M (amis @ [a])) = CreationDate a"
        unfolding eq e by simp
      show ?thesis by (simp only: lhs rhsne mx if_False)
    next
      case ne: False
      with snoc.IH have m: "map_of ?vs v = Some (Max (CreationDate ` ?M amis))"
        by simp
      with step have lhs: "map_of (foldl (recordVersion k) [] (amis @ [a])) v
          = Some (max (Max (CreationDate ` ?M amis)) (CreationDate a))" by simp
      have fin: "finite (CreationDate ` ?M amis)" by simp
      have nemp: "CreationDate ` ?M amis \<noteq> {}" using ne by simp
      have "Max (CreationDate ` ?M (amis @ [a]))
          = max (CreationDate a) (Max (CreationDate ` ?M amis))"
        unfolding eq image_insert by (rule Max_insert[OF fin nemp])
      then have mx: "Max (CreationDate ` ?M (amis @ [a]))
          = max (Max (CreationDate ` ?M amis)) (CreationDate a)"
        by (simp only: max.commute)
      show ?thesis by (simp only: lhs rhsne mx if_False)
    qed
  qed
qed

lemma set_insertBy: "set (insertBy f x xs) = insert x (set xs)"
  by (induction xs) auto

lemma set_sortSlice: "set (sortSlice f xs) = set xs"
  unfolding sortSlice_def by (induction xs) (simp_all add: set_insertBy)

lemma insertBy_descending:
  assumes "sorted_wrt (\<lambda>a b. item_Version a > item_Version b) xs"
    "item_Version x \<notin> item_Version ` set xs"
  shows "sorted_wrt (\<lambda>a b. item_Version a > item_Version b)
           (insertBy (\<lambda>a b. item_Version a > item_Version b) x xs)"
  using assms
proof (induction xs)
  case Nil
  then show ?case by simp
next
  case (Cons y ys)
  show ?case
  proof (cases "item_Version y > item_Version x")
    case True
    with Cons show ?thesis by (auto simp: set_insertBy)
  next
    case False
    with Cons.prems(2) have "item_Version x > item_Version y" by auto
    with Cons.prems(1) False show ?thesis by auto
  qed
qed

lemma sortSlice_descending:
  "distinct (map item_Version xs) \<Longrightarrow>
   sorted_wrt (\<lambda>a b. item_Version a > item_Version b)
     (sortSlice (\<lambda>a b. item_Version a > item_Version b) xs)"
proof (induction xs)
  case Nil
  then show ?case by (simp add: sortSlice_def)
next
  case (Cons x xs)
  then have s: "sorted_wrt (\<lambda>a b. item_Version a > item_Version b)
      (sortSlice (\<lambda>a b. item_Version a > item_Version b) xs)"
    and n: "item_Version x
      \<notin> item_Version ` set (sortSlice (\<lambda>a b. item_Version a > item_Version b) xs)"
    by (simp_all add: set_sortSlice)
  from insertBy_descending[OF s n] show ?case by (simp add: sortSlice_def)
qed

text \<open>
  \<^verbatim>\<open>for version, dateStr := range versionSet\<close> visits the map in an order Go leaves
  open. The items have distinct versions, so the sorted list is the same for every
  order.
\<close>

lemma sorted_wrt_unique:
  assumes irrefl: "\<And>a. \<not> R a a" and asym: "\<And>a b. R a b \<Longrightarrow> \<not> R b a"
  shows "sorted_wrt R xs \<Longrightarrow> sorted_wrt R ys \<Longrightarrow> set xs = set ys \<Longrightarrow> xs = ys"
proof (induction xs arbitrary: ys)
  case Nil
  then show ?case by simp
next
  case (Cons a xs)
  then obtain b ys' where ys: "ys = b # ys'" by (cases ys) auto
  from Cons.prems(1) have ax: "\<forall>x \<in> set xs. R a x" and sx: "sorted_wrt R xs" by simp_all
  from Cons.prems(2) ys have bys: "\<forall>y \<in> set ys'. R b y" and sy: "sorted_wrt R ys'"
    by simp_all
  have ab: "a = b"
  proof (rule ccontr)
    assume ne: "a \<noteq> b"
    from Cons.prems(3) ys have "a \<in> set (b # ys')" by auto
    with ne have "a \<in> set ys'" by simp
    with bys have "R b a" by blast
    from Cons.prems(3) ys have "b \<in> set (a # xs)" by auto
    with ne have "b \<in> set xs" by auto
    with ax have "R a b" by blast
    with \<open>R b a\<close> asym show False by blast
  qed
  have "a \<notin> set xs" using ax irrefl by blast
  moreover have "b \<notin> set ys'" using bys irrefl by blast
  ultimately have "set xs = set ys'" using Cons.prems(3) ys ab by auto
  from Cons.IH[OF sx sy this] ab ys show ?case by simp
qed

lemma sortSlice_any_order:
  assumes "distinct (map item_Version (xs :: VersionItem list))"
    "distinct (map item_Version ys)" "set ys = set xs"
  shows "sortSlice (\<lambda>a b. item_Version a > item_Version b) ys
       = sortSlice (\<lambda>a b. item_Version a > item_Version b) xs"
proof (rule sorted_wrt_unique[where R = "\<lambda>a b. item_Version a > item_Version b"])
  show "\<not> item_Version a > item_Version a" for a :: VersionItem by simp
  show "item_Version a > item_Version b \<Longrightarrow> \<not> item_Version b > item_Version a"
    for a b :: VersionItem by simp
  show "sorted_wrt (\<lambda>a b. item_Version a > item_Version b)
      (sortSlice (\<lambda>a b. item_Version a > item_Version b) ys)"
    by (rule sortSlice_descending[OF assms(2)])
  show "sorted_wrt (\<lambda>a b. item_Version a > item_Version b)
      (sortSlice (\<lambda>a b. item_Version a > item_Version b) xs)"
    by (rule sortSlice_descending[OF assms(1)])
  show "set (sortSlice (\<lambda>a b. item_Version a > item_Version b) ys)
      = set (sortSlice (\<lambda>a b. item_Version a > item_Version b) xs)"
    by (simp add: set_sortSlice assms(3))
qed

lemma ExtractVersions_Inr:
  assumes "ExtractVersions amis k = Inr items"
  shows "foldl (recordVersion k) [] amis \<noteq> []"
    and "items = sortSlice (\<lambda>a b. item_Version a > item_Version b)
           (map (\<lambda>(version, dateStr).
                   \<lparr>item_Version = version, item_Date = ParseDate dateStr\<rparr>)
              (foldl (recordVersion k) [] amis))"
  using assms by (auto simp: ExtractVersions_def Let_def split: if_splits)

lemma match_133_v20251001:
  "matchedVersion ''1.33'' ''domino-eks-1.33-v20251001'' = Some ''20251001''"
  by (simp add: matchedVersion_def FindStringSubmatch_def patternWithNodegroup_def
      patternWithoutNodegroup_def)

lemma match_133_gpu_v20251001:
  "matchedVersion ''1.33'' ''domino-eks-gpu-1.33-v20251001'' = Some ''20251001''"
  by (simp add: matchedVersion_def FindStringSubmatch_def patternWithNodegroup_def
      patternWithoutNodegroup_def)

lemma match_133_v20251101:
  "matchedVersion ''1.33'' ''domino-eks-1.33-v20251101'' = Some ''20251101''"
  by (simp add: matchedVersion_def FindStringSubmatch_def patternWithNodegroup_def
      patternWithoutNodegroup_def)

lemma match_133_other:
  "matchedVersion ''1.33'' ''domino-eks-gpu-1.34-v20251201'' = None"
  by (simp add: matchedVersion_def FindStringSubmatch_def patternWithNodegroup_def
      patternWithoutNodegroup_def)

lemma ParseDate_20251001:
  "ParseDate ''2025-10-01T00:00:00.000Z'' = ''2025-10-01 00:00''"
  by (simp add: ParseDate_def time_Parse_def check_def skip_def getnum_def isDigit_def
      digitVal_def atoi_def leadingInt_def daysIn_def isLeap_def time_Format_def
      appendInt_def upt_rec)

lemma ParseDate_20251002:
  "ParseDate ''2025-10-02T08:30:00.000Z'' = ''2025-10-02 08:30''"
  by (simp add: ParseDate_def time_Parse_def check_def skip_def getnum_def isDigit_def
      digitVal_def atoi_def leadingInt_def daysIn_def isLeap_def time_Format_def
      appendInt_def upt_rec)

lemma ParseDate_20251101:
  "ParseDate ''2025-11-01T00:00:00.000Z'' = ''2025-11-01 00:00''"
  by (simp add: ParseDate_def time_Parse_def check_def skip_def getnum_def isDigit_def
      digitVal_def atoi_def leadingInt_def daysIn_def isLeap_def time_Format_def
      appendInt_def upt_rec)

lemma catalog_133:
  "ExtractVersions
     [\<lparr>ami_Name = ''domino-eks-1.33-v20251001'', ImageID = ''ami-0a01'',
       CreationDate = ''2025-10-01T00:00:00.000Z''\<rparr>,
      \<lparr>ami_Name = ''domino-eks-1.33-v20251101'', ImageID = ''ami-0a02'',
       CreationDate = ''2025-11-01T00:00:00.000Z''\<rparr>,
      \<lparr>ami_Name = ''domino-eks-gpu-1.33-v20251001'', ImageID = ''ami-0a03'',
       CreationDate = ''2025-10-02T08:30:00.000Z''\<rparr>,
      \<lparr>ami_Name = ''domino-eks-gpu-1.34-v20251201'', ImageID = ''ami-0a04'',
       CreationDate = ''2025-12-01T00:00:00.000Z''\<rparr>]
     ''1.33''
   = Inr [\<lparr>item_Version = ''20251101'', item_Date = ''2025-11-01 00:00''\<rparr>,
          \<lparr>item_Version = ''20251001'', item_Date = ''2025-10-02 08:30''\<rparr>]"
  by (simp add: ExtractVersions_def recordVersion_def sortSlice_def match_133_v20251001
      match_133_gpu_v20251001 match_133_v20251101 match_133_other ParseDate_20251002
      ParseDate_20251101 less_char_def)

section \<open>The items of ExtractVersions\<close>

text \<open>
  Claim C4, as amended. When \<^verbatim>\<open>ExtractVersions\<close> succeeds, its items are in strictly
  descending order of version (so no version comes twice), their versions are exactly the
  versions matched by some AMI of the catalog for the given Kubernetes version, and the
  date of each item is \<^verbatim>\<open>ParseDate\<close> of the greatest creation date, in the order of
  strings, among the AMIs matched to the item's version: the creation date itself when
  it is not in the layout \<^verbatim>\<open>2006-01-02T15:04:05.000Z\<close>, else the date rewritten as
  \<^verbatim>\<open>2006-01-02 15:04\<close>.
\<close>

theorem ExtractVersions_candidates:
  assumes "ExtractVersions amis k = Inr items"
  shows "sorted_wrt (\<lambda>a b. item_Version a > item_Version b) items
       \<and> item_Version ` set items
           = {v. \<exists>ami \<in> set amis. matchedVersion k (ami_Name ami) = Some v}
       \<and> (\<forall>it \<in> set items.
             item_Date it
             = ParseDate (Max (CreationDate `
                 {ami \<in> set amis. matchedVersion k (ami_Name ami) = Some (item_Version it)})))"
proof -
  let ?vs = "foldl (recordVersion k) [] amis"
  let ?mk = "\<lambda>(version, dateStr). \<lparr>item_Version = version, item_Date = ParseDate dateStr\<rparr>"
  let ?lt = "\<lambda>a b. item_Version a > item_Version b"
  from ExtractVersions_Inr(2)[OF assms] have items: "items = sortSlice ?lt (map ?mk ?vs)" .
  have keys: "map item_Version (map ?mk ?vs) = map fst ?vs"
    by (simp add: case_prod_beta comp_def)
  have d: "distinct (map fst ?vs)" by (rule foldl_recordVersion_distinct) simp
  have sorted: "sorted_wrt ?lt items"
    unfolding items by (rule sortSlice_descending) (simp only: keys d)
  have "item_Version ` set items = set (map item_Version (map ?mk ?vs))"
    unfolding items set_sortSlice by (simp add: image_image)
  also have "\<dots> = fst ` set ?vs" unfolding keys by simp
  also have "\<dots> = {v. \<exists>ami \<in> set amis. matchedVersion k (ami_Name ami) = Some v}"
    by (simp add: foldl_recordVersion_keys)
  finally have versions: "item_Version ` set items
      = {v. \<exists>ami \<in> set amis. matchedVersion k (ami_Name ami) = Some v}" .
  have dates: "item_Date it = ParseDate (Max (CreationDate `
      {ami \<in> set amis. matchedVersion k (ami_Name ami) = Some (item_Version it)}))"
    if "it \<in> set items" for it
  proof -
    from that have "it \<in> set (map ?mk ?vs)" unfolding items set_sortSlice .
    then obtain v dateStr where in_vs: "(v, dateStr) \<in> set ?vs"
      and it: "it = \<lparr>item_Version = v, item_Date = ParseDate dateStr\<rparr>" by auto
    from in_vs d have m: "map_of ?vs v = Some dateStr" by simp
    from foldl_recordVersion_map_of[of k amis v] m
    have "dateStr = Max (CreationDate `
        {ami \<in> set amis. matchedVersion k (ami_Name ami) = Some v})"
      by (simp split: if_splits)
    with it show ?thesis by simp
  qed
  from sorted versions dates show ?thesis by blast
qed

theorem ExtractVersions_candidates_witness:
  "ExtractVersions
     [\<lparr>ami_Name = ''domino-eks-1.33-v20251001'', ImageID = ''ami-0a01'',
       CreationDate = ''2025-10-01T00:00:00.000Z''\<rparr>,
      \<lparr>ami_Name = ''domino-eks-1.33-v20251101'', ImageID = ''ami-0a02'',
       CreationDate = ''2025-11-01T00:00:00.000Z''\<rparr>,
      \<lparr>ami_Name = ''domino-eks-gpu-1.33-v20251001'', ImageID = ''ami-0a03'',
       CreationDate = ''2025-10-02T08:30:00.000Z''\<rparr>,
      \<lparr>ami_Name = ''domino-eks-gpu-1.34-v20251201'', ImageID = ''ami-0a04'',
       CreationDate = ''2025-12-01T00:00:00.000Z''\<rparr>]
     ''1.33''
   = Inr [\<lparr>item_Version = ''20251101'', item_Date = ''2025-11-01 00:00''\<rparr>,
          \<lparr>item_Version = ''20251001'', item_Date = ''2025-10-02 08:30''\<rparr>]
   \<and> item_Version `
       set [\<lparr>item_Version = ''20251101'', item_Date = ''2025-11-01 00:00''\<rparr>,
            \<lparr>item_Version = ''20251001'', item_Date = ''2025-10-02 08:30''\<rparr>]
     = {v. \<exists>ami \<in> set
          [\<lparr>ami_Name = ''domino-eks-1.33-v20251001'', ImageID = ''ami-0a01'',
            CreationDate = ''2025-10-01T00:00:00.000Z''\<rparr>,
           \<lparr>ami_Name = ''domino-eks-1.33-v20251101'', ImageID = ''ami-0a02'',
            CreationDate = ''2025-11-01T00:00:00.000Z''\<rparr>,
           \<lparr>ami_Name = ''domino-eks-gpu-1.33-v20251001'', ImageID = ''ami-0a03'',
            CreationDate = ''2025-10-02T08:30:00.000Z''\<rparr>,
           \<lparr>ami_Name = ''domino-eks-gpu-1.34-v20251201'', ImageID = ''ami-0a04'',
            CreationDate = ''2025-12-01T00:00:00.000Z''\<rparr>].
          matchedVersion ''1.33'' (ami_Name ami) = Some v}"
  using ExtractVersions_candidates[OF catalog_133] catalog_133 by blast

text \<open>
  The claim as stated fails: the item made of the one AMI created at
  \<^verbatim>\<open>2025-10-01T00:00:00.000Z\<close> carries \<^verbatim>\<open>2025-10-01 00:00\<close>, not the creation date.
\<close>

theorem candidate_date_is_reformatted:
  "ExtractVersions
     [\<lparr>ami_Name = ''domino-eks-1.33-v20251001'', ImageID = ''ami-0a01'',
       CreationDate = ''2025-10-01T00:00:00.000Z''\<rparr>]
     ''1.33''
   = Inr [\<lparr>item_Version = ''20251001'', item_Date = ''2025-10-01 00:00''\<rparr>]
   \<and> ''2025-10-01 00:00'' \<noteq> ''2025-10-01T00:00:00.000Z''"
  by (simp add: ExtractVersions_def recordVersion_def sortSlice_def match_133_v20251001
      ParseDate_20251001)

lemma ExtractVersions_error_matched:
  "(ExtractVersions amis k = Inl NoMatchingVersions
      \<longleftrightarrow> (\<forall>ami \<in> set amis. matchedVersion k (ami_Name ami) = None))
   \<and> ExtractVersions amis k \<noteq> Inr []"
proof -
  let ?vs = "foldl (recordVersion k) [] amis"
  let ?mk = "\<lambda>(version, dateStr). \<lparr>item_Version = version, item_Date = ParseDate dateStr\<rparr>"
  let ?lt = "\<lambda>a b. item_Version a > item_Version b"
  have k: "fst ` set ?vs = {v. \<exists>ami \<in> set amis. matchedVersion k (ami_Name ami) = Some v}"
    by (simp add: foldl_recordVersion_keys)
  have "(?vs = []) = (fst ` set ?vs = {})" by simp
  also have "\<dots> = ({v. \<exists>ami \<in> set amis. matchedVersion k (ami_Name ami) = Some v} = {})"
    by (simp only: k)
  also have "\<dots> = (\<forall>ami \<in> set amis. matchedVersion k (ami_Name ami) = None)"
  proof
    assume empty: "{v. \<exists>ami \<in> set amis. matchedVersion k (ami_Name ami) = Some v} = {}"
    show "\<forall>ami \<in> set amis. matchedVersion k (ami_Name ami) = None"
    proof
      fix ami assume mem: "ami \<in> set amis"
      show "matchedVersion k (ami_Name ami) = None"
      proof (cases "matchedVersion k (ami_Name ami)")
        case None
        then show ?thesis .
      next
        case (Some v)
        with mem have "v \<in> {v. \<exists>ami \<in> set amis. matchedVersion k (ami_Name ami) = Some v}"
          by blast
        with empty show ?thesis by simp
      qed
    qed
  next
    assume "\<forall>ami \<in> set amis. matchedVersion k (ami_Name ami) = None"
    then show "{v. \<exists>ami \<in> set amis. matchedVersion k (ami_Name ami) = Some v} = {}"
      by auto
  qed
  finally have e: "(?vs = []) = (\<forall>ami \<in> set amis. matchedVersion k (ami_Name ami) = None)" .
  have iff: "(ExtractVersions amis k = Inl NoMatchingVersions) = (?vs = [])"
    by (simp add: ExtractVersions_def Let_def)
  have ne: "ExtractVersions amis k \<noteq> Inr []"
  proof
    assume a: "ExtractVersions amis k = Inr []"
    from ExtractVersions_Inr[OF a] have "?vs \<noteq> []" and "[] = sortSlice ?lt (map ?mk ?vs)"
      by simp_all
    then have "set (sortSlice ?lt (map ?mk ?vs)) = {}" by simp
    then have "set (map ?mk ?vs) = {}" unfolding set_sortSlice .
    with \<open>?vs \<noteq> []\<close> show False by simp
  qed
  from iff e ne show ?thesis by simp
qed

section \<open>The names the expressions of ExtractVersions match\<close>

lemma backtrack_complete:
  "lo \<le> j \<Longrightarrow> j \<le> n \<Longrightarrow> k (drop j s) = Some segs \<Longrightarrow> \<exists>r. backtrack k s lo n = Some r"
proof (induction n)
  case 0
  then show ?case by simp
next
  case (Suc n)
  from Suc.prems have nlt: "\<not> Suc n < lo" by simp
  show ?case
  proof (cases "k (drop (Suc n) s)")
    case (Some r)
    with nlt show ?thesis by simp
  next
    case None
    with Suc.prems(3) have "j \<noteq> Suc n" by auto
    with Suc.prems(2) have "j \<le> n" by simp
    from Suc.IH[OF Suc.prems(1) this Suc.prems(3)] None nlt show ?thesis by simp
  qed
qed

lemma rmatch_Star_complete:
  assumes "list_all (inC c) mid" "rmatch as rest = Some segs"
  shows "\<exists>r. rmatch (Star c # as) (mid @ rest) = Some r"
proof -
  have "takeWhile (inC c) (mid @ rest) = mid @ takeWhile (inC c) rest"
    using assms(1) by (intro takeWhile_append2) (simp add: list_all_iff)
  then have le: "length mid \<le> length (takeWhile (inC c) (mid @ rest))" by simp
  have "rmatch as (drop (length mid) (mid @ rest)) = Some segs" using assms(2) by simp
  from backtrack_complete[where lo = 0 and j = "length mid" and k = "rmatch as"
      and s = "mid @ rest" and n = "length (takeWhile (inC c) (mid @ rest))", OF _ le this]
  show ?thesis by simp
qed

lemma atoms_with: "atoms (patternWithNodegroup k) =
  [Lit ''domino-eks-'', Star AnyChar, Lit ''-'', Lit k, Lit ''-v'', Count 8 Digit]"
  by (simp add: patternWithNodegroup_def)

lemma atoms_without: "atoms (patternWithoutNodegroup k) =
  [Lit ''domino-eks-'', Lit k, Lit ''-v'', Count 8 Digit]"
  by (simp add: patternWithoutNodegroup_def)

lemma same_date: "a @ d = b @ d' \<Longrightarrow> length d = length d' \<Longrightarrow> d = d'"
  by simp

lemma rmatch_Lit_append:
  "rmatch (Lit l # as) (l @ r) = map_option ((#) l) (rmatch as r)"
  by simp

lemma rmatch_date:
  "length d = 8 \<Longrightarrow> list_all (inC Digit) d \<Longrightarrow> rmatch [Count 8 Digit] d = Some [d]"
  by simp

lemma FSS_with:
  "FindStringSubmatch (patternWithNodegroup k) name = [] \<or>
   (\<exists>mid d. list_all (inC AnyChar) mid \<and> length d = 8 \<and> list_all (inC Digit) d
      \<and> name = ''domino-eks-'' @ mid @ ''-'' @ k @ ''-v'' @ d
      \<and> FindStringSubmatch (patternWithNodegroup k) name = [name, d])"
proof (cases "rmatch (atoms (patternWithNodegroup k)) name")
  case None
  then show ?thesis by (simp add: FindStringSubmatch_def)
next
  case (Some segs)
  from rmatch_sound[OF Some] have c: "concat segs = name"
    and l: "list_all2 conforms (atoms (patternWithNodegroup k)) segs" by simp_all
  from l obtain mid d where segs: "segs = [''domino-eks-'', mid, ''-'', k, ''-v'', d]"
    and p: "list_all (inC AnyChar) mid" "length d = 8" "list_all (inC Digit) d"
    by (auto simp: atoms_with list_all2_Cons1)
  from c segs have n: "name = ''domino-eks-'' @ mid @ ''-'' @ k @ ''-v'' @ d" by simp
  have "FindStringSubmatch (patternWithNodegroup k) name = [name, d]"
    using Some segs by (simp add: FindStringSubmatch_def) (simp add: patternWithNodegroup_def)
  with p n show ?thesis by blast
qed

lemma FSS_without:
  "FindStringSubmatch (patternWithoutNodegroup k) name = [] \<or>
   (\<exists>d. length d = 8 \<and> list_all (inC Digit) d
      \<and> name = ''domino-eks-'' @ k @ ''-v'' @ d
      \<and> FindStringSubmatch (patternWithoutNodegroup k) name = [name, d])"
proof (cases "rmatch (atoms (patternWithoutNodegroup k)) name")
  case None
  then show ?thesis by (simp add: FindStringSubmatch_def)
next
  case (Some segs)
  from rmatch_sound[OF Some] have c: "concat segs = name"
    and l: "list_all2 conforms (atoms (patternWithoutNodegroup k)) segs" by simp_all
  from l obtain d where segs: "segs = [''domino-eks-'', k, ''-v'', d]"
    and p: "length d = 8" "list_all (inC Digit) d"
    by (auto simp: atoms_without list_all2_Cons1)
  from c segs have n: "name = ''domino-eks-'' @ k @ ''-v'' @ d" by simp
  have "FindStringSubmatch (patternWithoutNodegroup k) name = [name, d]"
    using Some segs by (simp add: FindStringSubmatch_def) (simp add: patternWithoutNodegroup_def)
  with p n show ?thesis by blast
qed

lemma FSS_with_complete:
  assumes "list_all (inC AnyChar) mid" "length d = 8" "list_all (inC Digit) d"
  shows "FindStringSubmatch (patternWithNodegroup k)
           (''domino-eks-'' @ mid @ ''-'' @ k @ ''-v'' @ d)
         = [''domino-eks-'' @ mid @ ''-'' @ k @ ''-v'' @ d, d]"
proof -
  let ?name = "''domino-eks-'' @ mid @ ''-'' @ k @ ''-v'' @ d"
  have tail: "rmatch [Lit ''-'', Lit k, Lit ''-v'', Count 8 Digit] (''-'' @ k @ ''-v'' @ d)
      = Some [''-'', k, ''-v'', d]"
    using rmatch_date[OF assms(2,3)]
    by (simp only: rmatch_Lit_append option.map)
  from rmatch_Star_complete[OF assms(1) tail] obtain r where
    "rmatch (Star AnyChar # [Lit ''-'', Lit k, Lit ''-v'', Count 8 Digit])
       (mid @ ''-'' @ k @ ''-v'' @ d) = Some r" by blast
  then have "rmatch (atoms (patternWithNodegroup k)) ?name = Some (''domino-eks-'' # r)"
    unfolding atoms_with by (simp only: rmatch_Lit_append option.map)
  then have ne: "FindStringSubmatch (patternWithNodegroup k) ?name \<noteq> []"
    by (simp add: FindStringSubmatch_def)
  with FSS_with[of k ?name] obtain mid' d' where d': "length d' = 8"
    "?name = ''domino-eks-'' @ mid' @ ''-'' @ k @ ''-v'' @ d'"
    "FindStringSubmatch (patternWithNodegroup k) ?name = [?name, d']" by blast
  have "(''domino-eks-'' @ mid @ ''-'' @ k @ ''-v'') @ d
      = (''domino-eks-'' @ mid' @ ''-'' @ k @ ''-v'') @ d'"
    using d'(2) by simp
  from same_date[OF this] assms(2) d'(1) have "d = d'" by simp
  with d'(3) show ?thesis by simp
qed

lemma FSS_without_complete:
  assumes "length d = 8" "list_all (inC Digit) d"
  shows "FindStringSubmatch (patternWithoutNodegroup k) (''domino-eks-'' @ k @ ''-v'' @ d)
         = [''domino-eks-'' @ k @ ''-v'' @ d, d]"
proof -
  have "rmatch (atoms (patternWithoutNodegroup k)) (''domino-eks-'' @ k @ ''-v'' @ d)
      = Some [''domino-eks-'', k, ''-v'', d]"
    unfolding atoms_without using rmatch_date[OF assms]
    by (simp only: rmatch_Lit_append option.map)
  then show ?thesis
    by (simp add: FindStringSubmatch_def) (simp add: patternWithoutNodegroup_def)
qed

lemma matchedVersion_Some_iff:
  "matchedVersion k name = Some d \<longleftrightarrow>
     length d = 8 \<and> list_all (inC Digit) d
     \<and> (name = ''domino-eks-'' @ k @ ''-v'' @ d
        \<or> (\<exists>mid. list_all (inC AnyChar) mid
              \<and> name = ''domino-eks-'' @ mid @ ''-'' @ k @ ''-v'' @ d))"
proof
  assume m: "matchedVersion k name = Some d"
  show "length d = 8 \<and> list_all (inC Digit) d
     \<and> (name = ''domino-eks-'' @ k @ ''-v'' @ d
        \<or> (\<exists>mid. list_all (inC AnyChar) mid
              \<and> name = ''domino-eks-'' @ mid @ ''-'' @ k @ ''-v'' @ d))"
  proof (cases "FindStringSubmatch (patternWithNodegroup k) name = []")
    case False
    with FSS_with[of k name] obtain mid d' where w: "list_all (inC AnyChar) mid"
      "length d' = 8" "list_all (inC Digit) d'"
      "name = ''domino-eks-'' @ mid @ ''-'' @ k @ ''-v'' @ d'"
      "FindStringSubmatch (patternWithNodegroup k) name = [name, d']" by blast
    from m w(5) have "d = d'" by (simp add: matchedVersion_def)
    with w show ?thesis by blast
  next
    case True
    show ?thesis
    proof (cases "FindStringSubmatch (patternWithoutNodegroup k) name = []")
      case e: True
      with True m show ?thesis by (simp add: matchedVersion_def)
    next
      case False
      with FSS_without[of k name] obtain d' where w: "length d' = 8"
        "list_all (inC Digit) d'" "name = ''domino-eks-'' @ k @ ''-v'' @ d'"
        "FindStringSubmatch (patternWithoutNodegroup k) name = [name, d']" by blast
      from m True w(4) have "d = d'" by (simp add: matchedVersion_def)
      with w show ?thesis by blast
    qed
  qed
next
  assume a: "length d = 8 \<and> list_all (inC Digit) d
     \<and> (name = ''domino-eks-'' @ k @ ''-v'' @ d
        \<or> (\<exists>mid. list_all (inC AnyChar) mid
              \<and> name = ''domino-eks-'' @ mid @ ''-'' @ k @ ''-v'' @ d))"
  then have d: "length d = 8" "list_all (inC Digit) d" by simp_all
  from a consider (plain) "name = ''domino-eks-'' @ k @ ''-v'' @ d"
    | (grouped) mid where "list_all (inC AnyChar) mid"
        "name = ''domino-eks-'' @ mid @ ''-'' @ k @ ''-v'' @ d" by blast
  then show "matchedVersion k name = Some d"
  proof cases
    case grouped
    from FSS_with_complete[OF grouped(1) d, of k] grouped(2)
    have "FindStringSubmatch (patternWithNodegroup k) name = [name, d]" by simp
    then show ?thesis by (simp add: matchedVersion_def)
  next
    case plain
    from FSS_without_complete[OF d, of k] plain
    have wo: "FindStringSubmatch (patternWithoutNodegroup k) name = [name, d]" by simp
    show ?thesis
    proof (cases "FindStringSubmatch (patternWithNodegroup k) name = []")
      case True
      with wo show ?thesis by (simp add: matchedVersion_def)
    next
      case False
      with FSS_with[of k name] obtain mid d' where w: "length d' = 8"
        "name = ''domino-eks-'' @ mid @ ''-'' @ k @ ''-v'' @ d'"
        "FindStringSubmatch (patternWithNodegroup k) name = [name, d']" by blast
      have "(''domino-eks-'' @ k @ ''-v'') @ d
          = (''domino-eks-'' @ mid @ ''-'' @ k @ ''-v'') @ d'"
        using plain w(2) by simp
      from same_date[OF this] d(1) w(1) have "d = d'" by simp
      with w(3) show ?thesis by (simp add: matchedVersion_def)
    qed
  qed
qed

lemma matchedVersion_None_iff:
  "matchedVersion k name = None \<longleftrightarrow>
     \<not> (\<exists>d. length d = 8 \<and> list_all (inC Digit) d
            \<and> (name = ''domino-eks-'' @ k @ ''-v'' @ d
               \<or> (\<exists>group. CHR 0x0A \<notin> set group
                     \<and> name = ''domino-eks-'' @ group @ ''-'' @ k @ ''-v'' @ d)))"
proof -
  have nl: "list_all (inC AnyChar) mid = (CHR 0x0A \<notin> set mid)" for mid
    by (induction mid) auto
  have "matchedVersion k name = None \<longleftrightarrow> (\<forall>d. matchedVersion k name \<noteq> Some d)"
    by (cases "matchedVersion k name") simp_all
  also have "\<dots> \<longleftrightarrow> \<not> (\<exists>d. length d = 8 \<and> list_all (inC Digit) d
            \<and> (name = ''domino-eks-'' @ k @ ''-v'' @ d
               \<or> (\<exists>group. CHR 0x0A \<notin> set group
                     \<and> name = ''domino-eks-'' @ group @ ''-'' @ k @ ''-v'' @ d)))"
    unfolding matchedVersion_Some_iff nl by blast
  finally show ?thesis .
qed

lemma same_front: "a @ x = b @ y \<Longrightarrow> length x = length y \<Longrightarrow> a = b"
  by simp

lemma gpu_small_not_resolved:
  "\<not> (\<exists>g d. CHR ''-'' \<notin> set g \<and> length d = 8
         \<and> (''domino-eks-gpu-small-1.33-v20251001''
               = ''domino-eks-'' @ g @ ''-'' @ ''1.33'' @ ''-v'' @ d
            \<or> ''domino-eks-gpu-small-1.33-v20251001''
               = ''domino-eks-'' @ ''1.33'' @ ''-v'' @ d))"
proof
  assume "\<exists>g d. CHR ''-'' \<notin> set g \<and> length d = 8
         \<and> (''domino-eks-gpu-small-1.33-v20251001''
               = ''domino-eks-'' @ g @ ''-'' @ ''1.33'' @ ''-v'' @ d
            \<or> ''domino-eks-gpu-small-1.33-v20251001''
               = ''domino-eks-'' @ ''1.33'' @ ''-v'' @ d)"
  then obtain g d where g: "CHR ''-'' \<notin> set g" and d: "length d = 8"
    and e: "''domino-eks-gpu-small-1.33-v20251001''
               = ''domino-eks-'' @ g @ ''-'' @ ''1.33'' @ ''-v'' @ d
            \<or> ''domino-eks-gpu-small-1.33-v20251001''
               = ''domino-eks-'' @ ''1.33'' @ ''-v'' @ d" by blast
  from e show False
  proof
    assume "''domino-eks-gpu-small-1.33-v20251001''
        = ''domino-eks-'' @ g @ ''-'' @ ''1.33'' @ ''-v'' @ d"
    then have "''gpu-small'' @ (''-1.33-v'' @ ''20251001'') = g @ (''-1.33-v'' @ d)" by simp
    moreover have "length (''-1.33-v'' @ ''20251001'') = length (''-1.33-v'' @ d)"
      using d by simp
    ultimately have "''gpu-small'' = g" by (rule same_front)
    with g show False by auto
  next
    assume "''domino-eks-gpu-small-1.33-v20251001'' = ''domino-eks-'' @ ''1.33'' @ ''-v'' @ d"
    then have "length ''domino-eks-gpu-small-1.33-v20251001''
        = length (''domino-eks-'' @ ''1.33'' @ ''-v'' @ d)" by (rule arg_cong)
    with d show False by simp
  qed
qed

section \<open>When ExtractVersions fails\<close>

text \<open>
  Claim C7, as amended. \<^verbatim>\<open>ExtractVersions\<close> returns its error (no matching AMI versions
  found) if and only if no AMI of the catalog has a name that its two expressions match
  for the given Kubernetes version \<open>k\<close>: \<^verbatim>\<open>domino-eks-<k>-v<d>\<close>, or
  \<^verbatim>\<open>domino-eks-<group>-<k>-v<d>\<close>, with \<open>d\<close> eight digits and \<open>group\<close> any text without a
  newline, hyphens and the empty text included. It returns the error or a list of items
  that is not empty, never an empty list.
\<close>

theorem ExtractVersions_error_iff:
  "(ExtractVersions amis k = Inl NoMatchingVersions
      \<longleftrightarrow> \<not> (\<exists>ami \<in> set amis. \<exists>d. length d = 8 \<and> list_all (inC Digit) d
               \<and> (ami_Name ami = ''domino-eks-'' @ k @ ''-v'' @ d
                  \<or> (\<exists>group. CHR 0x0A \<notin> set group
                        \<and> ami_Name ami = ''domino-eks-'' @ group @ ''-'' @ k @ ''-v'' @ d))))
   \<and> (ExtractVersions amis k = Inl NoMatchingVersions
        \<or> (\<exists>items. items \<noteq> [] \<and> ExtractVersions amis k = Inr items))"
proof -
  from ExtractVersions_error_matched[of amis k]
  have iff: "(ExtractVersions amis k = Inl NoMatchingVersions)
      = (\<forall>ami \<in> set amis. matchedVersion k (ami_Name ami) = None)"
    and ne: "ExtractVersions amis k \<noteq> Inr []" by simp_all
  have c1: "(ExtractVersions amis k = Inl NoMatchingVersions)
      = (\<not> (\<exists>ami \<in> set amis. \<exists>d. length d = 8 \<and> list_all (inC Digit) d
               \<and> (ami_Name ami = ''domino-eks-'' @ k @ ''-v'' @ d
                  \<or> (\<exists>group. CHR 0x0A \<notin> set group
                        \<and> ami_Name ami = ''domino-eks-'' @ group @ ''-'' @ k @ ''-v'' @ d))))"
    unfolding iff matchedVersion_None_iff by blast
  have c2: "ExtractVersions amis k = Inl NoMatchingVersions
        \<or> (\<exists>items. items \<noteq> [] \<and> ExtractVersions amis k = Inr items)"
  proof (cases "ExtractVersions amis k")
    case (Inl e)
    then show ?thesis by (simp add: ExtractVersions_def Let_def split: if_splits)
  next
    case (Inr items)
    with ne have "items \<noteq> []" by auto
    with Inr show ?thesis by blast
  qed
  from c1 c2 show ?thesis by blast
qed

theorem ExtractVersions_error_iff_witness:
  "ExtractVersions
     [\<lparr>ami_Name = ''domino-eks-gpu-1.34-v20251201'', ImageID = ''ami-0a04'',
       CreationDate = ''2025-12-01T00:00:00.000Z''\<rparr>]
     ''1.33''
   = Inl NoMatchingVersions
   \<and> ExtractVersions
     [\<lparr>ami_Name = ''domino-eks-gpu-1.34-v20251201'', ImageID = ''ami-0a04'',
       CreationDate = ''2025-12-01T00:00:00.000Z''\<rparr>,
      \<lparr>ami_Name = ''domino-eks-gpu-1.33-v20251001'', ImageID = ''ami-0a03'',
       CreationDate = ''2025-10-02T08:30:00.000Z''\<rparr>]
     ''1.33''
   \<noteq> Inl NoMatchingVersions"
proof -
  let ?other = "\<lparr>ami_Name = ''domino-eks-gpu-1.34-v20251201'', ImageID = ''ami-0a04'',
       CreationDate = ''2025-12-01T00:00:00.000Z''\<rparr>"
  let ?gpu = "\<lparr>ami_Name = ''domino-eks-gpu-1.33-v20251001'', ImageID = ''ami-0a03'',
       CreationDate = ''2025-10-02T08:30:00.000Z''\<rparr>"
  have no: "\<not> (\<exists>d. length d = 8 \<and> list_all (inC Digit) d
            \<and> (''domino-eks-gpu-1.34-v20251201'' = ''domino-eks-'' @ ''1.33'' @ ''-v'' @ d
               \<or> (\<exists>group. CHR 0x0A \<notin> set group
                     \<and> ''domino-eks-gpu-1.34-v20251201''
                        = ''domino-eks-'' @ group @ ''-'' @ ''1.33'' @ ''-v'' @ d)))"
    using match_133_other unfolding matchedVersion_None_iff .
  have a: "ExtractVersions [?other] ''1.33'' = Inl NoMatchingVersions"
    using ExtractVersions_error_iff[of "[?other]" "''1.33''"] no by simp
  have yes: "length ''20251001'' = 8 \<and> list_all (inC Digit) ''20251001''
      \<and> CHR 0x0A \<notin> set ''gpu''
      \<and> ami_Name ?gpu = ''domino-eks-'' @ ''gpu'' @ ''-'' @ ''1.33'' @ ''-v'' @ ''20251001''"
    by simp
  have "\<exists>ami \<in> set [?other, ?gpu]. \<exists>d. length d = 8 \<and> list_all (inC Digit) d
      \<and> (ami_Name ami = ''domino-eks-'' @ ''1.33'' @ ''-v'' @ d
         \<or> (\<exists>group. CHR 0x0A \<notin> set group
               \<and> ami_Name ami = ''domino-eks-'' @ group @ ''-'' @ ''1.33'' @ ''-v'' @ d))"
    using yes by (intro bexI[of _ ?gpu] exI[of _ "''20251001''"]) (blast, simp)
  with ExtractVersions_error_iff[of "[?other, ?gpu]" "''1.33''"]
  have b: "ExtractVersions [?other, ?gpu] ''1.33'' \<noteq> Inl NoMatchingVersions" by blast
  from a b show ?thesis by blast
qed

text \<open>
  The claim as stated fails when the resolved names are those of the grammar, whose group
  has no hyphen: \<^verbatim>\<open>domino-eks-gpu-small-1.33-v20251001\<close> is of neither resolved form for
  1.33 with a group free of hyphens, and yet the catalog of this one AMI gives the item
  20251001, not the error.
\<close>

theorem hyphenated_group_is_no_error:
  "\<not> (\<exists>g d. CHR ''-'' \<notin> set g \<and> length d = 8
         \<and> (''domino-eks-gpu-small-1.33-v20251001''
               = ''domino-eks-'' @ g @ ''-'' @ ''1.33'' @ ''-v'' @ d
            \<or> ''domino-eks-gpu-small-1.33-v20251001''
               = ''domino-eks-'' @ ''1.33'' @ ''-v'' @ d))
   \<and> ExtractVersions
        [\<lparr>ami_Name = ''domino-eks-gpu-small-1.33-v20251001'', ImageID = ''ami-0a05'',
          CreationDate = ''2025-10-01T00:00:00.000Z''\<rparr>]
        ''1.33''
      = Inr [\<lparr>item_Version = ''20251001'', item_Date = ''2025-10-01 00:00''\<rparr>]"
  using gpu_small_not_resolved
  by (simp add: ExtractVersions_def recordVersion_def sortSlice_def gpu_small_matched
      ParseDate_20251001)

end
